theory Spec2Isabelle
  imports Main "HOL-Library.Word" "HOL-Library.AList" "HOL-Library.Sublist"
begin

unbundle bit_operations_syntax

section \<open>The governance state of core/test/state.go\<close>

text \<open>
  A shallow embedding of \<^verbatim>\<open>core/test/state.go\<close>: the \<^verbatim>\<open>State\<close> struct, its
  constructor, the validator, the applier, \<^verbatim>\<open>RequestChange\<close>, \<^verbatim>\<open>PackRequests\<close>,
  \<^verbatim>\<open>Apply\<close>, \<^verbatim>\<open>Equal\<close> and \<^verbatim>\<open>Clone\<close>.

  \<^item> Machine integers are words: \<^verbatim>\<open>uint8\<close>, \<^verbatim>\<open>uint32\<close>, \<^verbatim>\<open>uint64\<close>; \<^verbatim>\<open>time.Duration\<close>
    (an \<^verbatim>\<open>int64\<close>) and \<^verbatim>\<open>int\<close> (64 bits on the platforms the package is built for) are
    64-bit words read in two's complement (\<open>sint\<close>), so \<^verbatim>\<open>lambda * 10\<close> wraps as in Go.
  \<^item> A \<^verbatim>\<open>float32\<close> is the 32 bits of its IEEE-754 representation; \<^verbatim>\<open>math.Float32bits\<close>
    and \<^verbatim>\<open>math.Float32frombits\<close> are the selector and the constructor of that type, and
    \<^verbatim>\<open>==\<close> on \<^verbatim>\<open>float32\<close> is the IEEE comparison on the bits (NaN differs from
    everything, the two zeros are equal).
  \<^item> A Go map is an association list with distinct keys (\<open>goMap\<close>); the order of the list
    stands for the order in which \<^verbatim>\<open>range\<close> visits the map, which Go leaves open. The
    theorems hold for every list, hence for every order.
  \<^item> A slice is a list; the file only ever appends to its slices. A \<^verbatim>\<open>nil\<close> slice and
    an empty one are the same list: \<^verbatim>\<open>reflect.DeepEqual\<close> tells them apart, but the slices
    it is given here start \<^verbatim>\<open>nil\<close> and grow by \<^verbatim>\<open>append\<close>, so they are \<^verbatim>\<open>nil\<close> exactly
    when empty; the byte string of a key is taken to be non-\<^verbatim>\<open>nil\<close>.
  \<^item> The records behind \<^verbatim>\<open>*typesDKG.Complaint\<close>, \<^verbatim>\<open>*typesDKG.MasterPublicKey\<close>,
    \<^verbatim>\<open>*typesDKG.Finalize\<close> and \<^verbatim>\<open>*crsAdditionRequest\<close> live in an explicit heap; a
    pointer is an address, and an address outside the heap stands for \<^verbatim>\<open>nil\<close>.
  \<^item> A Go panic (a failed type assertion, a nil dereference) is the error value \<open>Panic\<close>.
  \<^item> The two locks are not modelled: every operation runs alone.
\<close>

subsection \<open>Scalars\<close>

type_synonym byte = "8 word"
type_synonym bytes = "byte list"
type_synonym uint32 = "32 word"
type_synonym uint64 = "64 word"
type_synonym Duration = "64 word"
type_synonym goInt = "64 word"

text \<open>\<^verbatim>\<open>common.Hash\<close> is \<^verbatim>\<open>[32]byte\<close> and \<^verbatim>\<open>types.NodeID\<close> wraps one;
  \<^verbatim>\<open>common.Hash{}\<close> is 32 zero bytes.\<close>

type_synonym Hash = bytes
type_synonym NodeID = Hash

definition zeroHash :: Hash where
  "zeroHash = replicate 32 0"

datatype float32 = Float32frombits (Float32bits: uint32)

definition isNaN :: "float32 \<Rightarrow> bool" where
  "isNaN f = (Float32bits f AND 0x7F800000 = 0x7F800000 \<and> Float32bits f AND 0x007FFFFF \<noteq> 0)"

definition float32_eq :: "float32 \<Rightarrow> float32 \<Rightarrow> bool" where
  "float32_eq f g =
     (\<not> isNaN f \<and> \<not> isNaN g \<and>
      (Float32bits f = Float32bits g \<or>
       (Float32bits f AND 0x7FFFFFFF = 0 \<and> Float32bits g AND 0x7FFFFFFF = 0)))"

text \<open>The constant \<^verbatim>\<open>0.667\<close> as a \<^verbatim>\<open>float32\<close>: \<open>0.667 = 1.334 * 2^-1\<close>, biased exponent
  126, fraction \<open>round (0.334 * 2^23) = 2801795 = 0x2AC083\<close>.\<close>

definition float32_0_667 :: float32 where
  "float32_0_667 = Float32frombits 0x3F2AC083"

definition Millisecond :: Duration where
  "Millisecond = 1000000"

text \<open>The conversions \<^verbatim>\<open>uint64(d)\<close>, \<^verbatim>\<open>time.Duration(u)\<close>, \<^verbatim>\<open>uint64(i)\<close> and \<^verbatim>\<open>int(u)\<close>
  keep the 64 bits.\<close>

definition uint64_of_Duration :: "Duration \<Rightarrow> uint64" where
  "uint64_of_Duration d = d"

definition Duration_of_uint64 :: "uint64 \<Rightarrow> Duration" where
  "Duration_of_uint64 u = u"

definition uint64_of_int :: "goInt \<Rightarrow> uint64" where
  "uint64_of_int i = i"

definition int_of_uint64 :: "uint64 \<Rightarrow> goInt" where
  "int_of_uint64 u = u"

subsection \<open>Errors\<close>

text \<open>The error variables of the file, the error \<^verbatim>\<open>applyRequest\<close> makes for a type it
  does not know, an error handed up from a library (\<open>External\<close>, with its message), and a
  panic.\<close>

datatype error =
    ErrDuplicatedChange
  | ErrForkedCRS
  | ErrMissingPreviousCRS
  | ErrUnknownStateChangeType
  | ErrProposerIsFinal
  | ErrStateConfigNotEqual
  | ErrStateLocalFlagNotEqual
  | ErrStateNodeSetNotEqual
  | ErrStateDKGComplaintsNotEqual
  | ErrStateDKGMasterPublicKeysNotEqual
  | ErrStateDKGFinalsNotEqual
  | ErrStateCRSsNotEqual
  | ErrStatePendingChangesNotEqual
  | ErrKiddingMe
  | External string
  | Panic

subsection \<open>State change types\<close>

type_synonym StateChangeType = "8 word"

abbreviation StateChangeNothing :: StateChangeType where "StateChangeNothing \<equiv> 0"
abbreviation StateAddCRS :: StateChangeType where "StateAddCRS \<equiv> 1"
abbreviation StateAddDKGComplaint :: StateChangeType where "StateAddDKGComplaint \<equiv> 2"
abbreviation StateAddDKGMasterPublicKey :: StateChangeType where "StateAddDKGMasterPublicKey \<equiv> 3"
abbreviation StateAddDKGFinal :: StateChangeType where "StateAddDKGFinal \<equiv> 4"
abbreviation StateChangeNumChains :: StateChangeType where "StateChangeNumChains \<equiv> 5"
abbreviation StateChangeLambdaBA :: StateChangeType where "StateChangeLambdaBA \<equiv> 6"
abbreviation StateChangeLambdaDKG :: StateChangeType where "StateChangeLambdaDKG \<equiv> 7"
abbreviation StateChangeRoundInterval :: StateChangeType where "StateChangeRoundInterval \<equiv> 8"
abbreviation StateChangeMinBlockInterval :: StateChangeType where "StateChangeMinBlockInterval \<equiv> 9"
abbreviation StateChangeMaxBlockInterval :: StateChangeType where "StateChangeMaxBlockInterval \<equiv> 10"
abbreviation StateChangeK :: StateChangeType where "StateChangeK \<equiv> 11"
abbreviation StateChangePhiRatio :: StateChangeType where "StateChangePhiRatio \<equiv> 12"
abbreviation StateChangeNotarySetSize :: StateChangeType where "StateChangeNotarySetSize \<equiv> 13"
abbreviation StateChangeDKGSetSize :: StateChangeType where "StateChangeDKGSetSize \<equiv> 14"
abbreviation StateAddNode :: StateChangeType where "StateAddNode \<equiv> 15"

subsection \<open>Records on the heap\<close>

record crsAdditionRequest =
  Round :: uint64
  CRS :: Hash

text \<open>Modelled from the spec: the three DKG records of \<^verbatim>\<open>core/types/dkg\<close>, which is not
  among the sources. The file reads their fields \<^verbatim>\<open>ProposerID\<close> and \<^verbatim>\<open>Round\<close> and calls
  their \<^verbatim>\<open>Equal\<close>, which the spec describes as structural equality; what else a record
  carries (shares, signature) is one byte string here.\<close>

record dkgRecord =
  ProposerID :: NodeID
  dkgRound :: uint64
  dkgBody :: bytes

type_synonym Complaint = dkgRecord
type_synonym MasterPublicKey = dkgRecord
type_synonym Finalize = dkgRecord

text \<open>Modelled from the spec: a \<^verbatim>\<open>crypto.PublicKey\<close> is known by its \<^verbatim>\<open>Bytes()\<close>.\<close>

datatype PublicKey = PublicKey (Bytes: bytes)

type_synonym addr = nat

record heap =
  crsRequests :: "crsAdditionRequest list"
  complaints :: "Complaint list"
  masterPublicKeys :: "MasterPublicKey list"
  finals :: "Finalize list"

definition deref :: "'a list \<Rightarrow> addr \<Rightarrow> 'a option" where
  "deref cells a = (if a < length cells then Some (cells ! a) else None)"

subsection \<open>Payloads\<close>

text \<open>The dynamic types an \<^verbatim>\<open>interface{}\<close> payload takes in this file.\<close>

datatype payload =
    PPublicKey PublicKey
  | PBytes bytes
  | PCRS addr
  | PComplaint addr
  | PMasterPublicKey addr
  | PFinalize addr
  | PDuration Duration
  | PInt goInt
  | PFloat32 float32
  | PUint32 uint32
  | PUint64 uint64

text \<open>Type assertions \<^verbatim>\<open>payload.(T)\<close>: \<open>None\<close> is the panic of a failed assertion.\<close>

fun asPublicKey :: "payload \<Rightarrow> PublicKey option" where
  "asPublicKey (PPublicKey key) = Some key"
| "asPublicKey _ = None"

fun asBytes :: "payload \<Rightarrow> bytes option" where
  "asBytes (PBytes bs) = Some bs"
| "asBytes _ = None"

fun asCRS :: "payload \<Rightarrow> addr option" where
  "asCRS (PCRS a) = Some a"
| "asCRS _ = None"

fun asComplaint :: "payload \<Rightarrow> addr option" where
  "asComplaint (PComplaint a) = Some a"
| "asComplaint _ = None"

fun asMasterPublicKey :: "payload \<Rightarrow> addr option" where
  "asMasterPublicKey (PMasterPublicKey a) = Some a"
| "asMasterPublicKey _ = None"

fun asFinalize :: "payload \<Rightarrow> addr option" where
  "asFinalize (PFinalize a) = Some a"
| "asFinalize _ = None"

fun asDuration :: "payload \<Rightarrow> Duration option" where
  "asDuration (PDuration d) = Some d"
| "asDuration _ = None"

fun asInt :: "payload \<Rightarrow> goInt option" where
  "asInt (PInt i) = Some i"
| "asInt _ = None"

fun asFloat32 :: "payload \<Rightarrow> float32 option" where
  "asFloat32 (PFloat32 f) = Some f"
| "asFloat32 _ = None"

fun asUint32 :: "payload \<Rightarrow> uint32 option" where
  "asUint32 (PUint32 u) = Some u"
| "asUint32 _ = None"

fun asUint64 :: "payload \<Rightarrow> uint64 option" where
  "asUint64 (PUint64 u) = Some u"
| "asUint64 _ = None"

type_synonym StateChangeRequest = "StateChangeType \<times> payload"
type_synonym rawStateChangeRequest = "StateChangeType \<times> bytes"

subsection \<open>The libraries the file calls\<close>

text \<open>
  The hash, the key parser, the node identifier and the RLP codec are other packages; the
  model takes them as one parameter. A library error is its message. The codec is given by
  type, as \<^verbatim>\<open>rlp.EncodeToBytes\<close> and \<^verbatim>\<open>rlp.DecodeBytes\<close> work by the type of their
  argument; a batch is encoded from the list of its elements, each a type and the encoding
  of its payload (decoding into \<^verbatim>\<open>rlp.RawValue\<close> gives that encoding back).
\<close>

record lib =
  Keccak256Hash :: "bytes \<Rightarrow> Hash"
  NewNodeID :: "PublicKey \<Rightarrow> NodeID"
  NewPublicKeyFromByteSlice :: "bytes \<Rightarrow> string + PublicKey"
  EncodeRequests :: "rawStateChangeRequest list \<Rightarrow> string + bytes"
  DecodeRequests :: "bytes \<Rightarrow> string + rawStateChangeRequest list"
  EncodeCRS :: "crsAdditionRequest \<Rightarrow> string + bytes"
  DecodeCRS :: "bytes \<Rightarrow> string + crsAdditionRequest"
  EncodeComplaint :: "Complaint \<Rightarrow> string + bytes"
  DecodeComplaint :: "bytes \<Rightarrow> string + Complaint"
  EncodeMasterPublicKey :: "MasterPublicKey \<Rightarrow> string + bytes"
  DecodeMasterPublicKey :: "bytes \<Rightarrow> string + MasterPublicKey"
  EncodeFinalize :: "Finalize \<Rightarrow> string + bytes"
  DecodeFinalize :: "bytes \<Rightarrow> string + Finalize"
  EncodeUint32 :: "uint32 \<Rightarrow> string + bytes"
  DecodeUint32 :: "bytes \<Rightarrow> string + uint32"
  EncodeUint64 :: "uint64 \<Rightarrow> string + bytes"
  DecodeUint64 :: "bytes \<Rightarrow> string + uint64"
  EncodeBytes :: "bytes \<Rightarrow> string + bytes"
  DecodeBytes :: "bytes \<Rightarrow> string + bytes"

subsection \<open>The state\<close>

type_synonym ('k, 'v) goMap = "('k \<times> 'v) list"

record State =
  numChains :: uint32
  lambdaBA :: Duration
  lambdaDKG :: Duration
  k :: goInt
  phiRatio :: float32
  notarySetSize :: uint32
  dkgSetSize :: uint32
  roundInterval :: Duration
  minBlockInterval :: Duration
  maxBlockInterval :: Duration
  nodes :: "(NodeID, PublicKey) goMap"
  dkgComplaints :: "(uint64, (NodeID, addr list) goMap) goMap"
  dkgMasterPublicKeys :: "(uint64, (NodeID, addr) goMap) goMap"
  dkgFinals :: "(uint64, (NodeID, addr) goMap) goMap"
  crs :: "Hash list"
  local :: bool
  pendingChangedConfigs :: "(StateChangeType, payload) goMap"
  pendingNodes :: "bytes list"
  pendingDKGComplaints :: "addr list"
  pendingDKGFinals :: "addr list"
  pendingDKGMasterPublicKeys :: "addr list"
  pendingCRS :: "addr list"

text \<open>\<^verbatim>\<open>m[key] = v\<close> is \<open>AList.update key v m\<close>, \<^verbatim>\<open>v, exists := m[key]\<close> is
  \<open>map_of m key\<close>, \<^verbatim>\<open>len(m)\<close> is \<open>length m\<close>. Reading a missing key of a map of maps or
  of slices gives the nil map or slice, which reads as an empty one.\<close>

definition orEmpty :: "'a list option \<Rightarrow> 'a list" where
  "orEmpty v = (case v of None \<Rightarrow> [] | Some xs \<Rightarrow> xs)"

text \<open>The bytes of the string \<^verbatim>\<open>"__ DEXON"\<close>.\<close>

definition genesisSeed :: bytes where
  "genesisSeed = [0x5F, 0x5F, 0x20, 0x44, 0x45, 0x58, 0x4F, 0x4E]"

definition NewState :: "lib \<Rightarrow> PublicKey list \<Rightarrow> Duration \<Rightarrow> bool \<Rightarrow> State" where
  "NewState l nodePubKeys lambda isLocal =
     (let nodeMap = foldl (\<lambda>m key. AList.update (NewNodeID l key) key m) [] nodePubKeys;
          genesisCRS = Keccak256Hash l genesisSeed
      in \<lparr> numChains = of_nat (length nodeMap),
           lambdaBA = lambda,
           lambdaDKG = lambda * 10,
           k = 0,
           phiRatio = float32_0_667,
           notarySetSize = of_nat (length nodeMap),
           dkgSetSize = of_nat (length nodeMap),
           roundInterval = lambda * 10000,
           minBlockInterval = Millisecond * 1,
           maxBlockInterval = lambda * 8,
           nodes = nodeMap,
           dkgComplaints = [],
           dkgMasterPublicKeys = [],
           dkgFinals = [],
           crs = [genesisCRS],
           local = isLocal,
           pendingChangedConfigs = [],
           pendingNodes = [],
           pendingDKGComplaints = [],
           pendingDKGFinals = [],
           pendingDKGMasterPublicKeys = [],
           pendingCRS = [] \<rparr>)"

text \<open>The accessor \<^verbatim>\<open>CRS(round)\<close>; the name \<open>CRS\<close> is the field of the request.\<close>

definition State_CRS :: "State \<Rightarrow> uint64 \<Rightarrow> Hash" where
  "State_CRS s round =
     (if round \<ge> of_nat (length (crs s)) then zeroHash else crs s ! unat round)"

definition IsDKGFinal :: "State \<Rightarrow> uint64 \<Rightarrow> int \<Rightarrow> bool" where
  "IsDKGFinal s round threshold = (int (length (orEmpty (map_of (dkgFinals s) round))) > threshold)"

subsection \<open>Validator and applier\<close>

definition isValidRequest :: "heap \<Rightarrow> State \<Rightarrow> StateChangeRequest \<Rightarrow> error option" where
  "isValidRequest h s req =
     (if fst req = StateAddDKGComplaint then
        (case asComplaint (snd req) of
           None \<Rightarrow> Some Panic
         | Some compl \<Rightarrow>
            (case deref (complaints h) compl of
               None \<Rightarrow> Some Panic
             | Some c \<Rightarrow>
                if map_of (orEmpty (map_of (dkgFinals s) (dkgRound c))) (ProposerID c) \<noteq> None
                then Some ErrProposerIsFinal
                else
                 (case map_of (dkgComplaints s) (dkgRound c) of
                    None \<Rightarrow> None
                  | Some compForRound \<Rightarrow>
                     (case map_of compForRound (ProposerID c) of
                        None \<Rightarrow> None
                      | Some comps \<Rightarrow>
                         if list_ex (\<lambda>tmpComp. tmpComp = compl) comps
                         then Some ErrDuplicatedChange else None))))
      else if fst req = StateAddCRS then
        (case asCRS (snd req) of
           None \<Rightarrow> Some Panic
         | Some a \<Rightarrow>
            (case deref (crsRequests h) a of
               None \<Rightarrow> Some Panic
             | Some crsReq \<Rightarrow>
                if (of_nat (length (crs s)) :: uint64) > Round crsReq then
                  (case deref (crs s) (unat (Round crsReq)) of
                     None \<Rightarrow> Some Panic
                   | Some stored \<Rightarrow>
                      if stored \<noteq> CRS crsReq then Some ErrForkedCRS
                      else Some ErrDuplicatedChange)
                else if (of_nat (length (crs s)) :: uint64) = Round crsReq then None
                else Some ErrMissingPreviousCRS))
      else None)"

text \<open>\<^verbatim>\<open>applyRequest\<close> returns before it writes whenever it fails: \<open>Inl\<close> leaves the
  state as it was.\<close>

definition applyRequest :: "lib \<Rightarrow> heap \<Rightarrow> State \<Rightarrow> StateChangeRequest \<Rightarrow> error + State" where
  "applyRequest l h s req =
     (if fst req = StateAddNode then
        (case asBytes (snd req) of
           None \<Rightarrow> Inl Panic
         | Some bs \<Rightarrow>
            (case NewPublicKeyFromByteSlice l bs of
               Inl msg \<Rightarrow> Inl (External msg)
             | Inr pubKey \<Rightarrow>
                Inr (s\<lparr>nodes := AList.update (NewNodeID l pubKey) pubKey (nodes s)\<rparr>)))
      else if fst req = StateAddCRS then
        (case asCRS (snd req) of
           None \<Rightarrow> Inl Panic
         | Some a \<Rightarrow>
            (case deref (crsRequests h) a of
               None \<Rightarrow> Inl Panic
             | Some crsRequest \<Rightarrow>
                if Round crsRequest \<noteq> of_nat (length (crs s)) then Inl ErrDuplicatedChange
                else Inr (s\<lparr>crs := crs s @ [CRS crsRequest]\<rparr>)))
      else if fst req = StateAddDKGComplaint then
        (case asComplaint (snd req) of
           None \<Rightarrow> Inl Panic
         | Some compl \<Rightarrow>
            (case deref (complaints h) compl of
               None \<Rightarrow> Inl Panic
             | Some c \<Rightarrow>
                (let forRound = orEmpty (map_of (dkgComplaints s) (dkgRound c));
                     comps = orEmpty (map_of forRound (ProposerID c))
                 in Inr (s\<lparr>dkgComplaints :=
                      AList.update (dkgRound c)
                        (AList.update (ProposerID c) (comps @ [compl]) forRound)
                        (dkgComplaints s)\<rparr>))))
      else if fst req = StateAddDKGMasterPublicKey then
        (case asMasterPublicKey (snd req) of
           None \<Rightarrow> Inl Panic
         | Some mKey \<Rightarrow>
            (case deref (masterPublicKeys h) mKey of
               None \<Rightarrow> Inl Panic
             | Some m \<Rightarrow>
                (let forRound = orEmpty (map_of (dkgMasterPublicKeys s) (dkgRound m))
                 in Inr (s\<lparr>dkgMasterPublicKeys :=
                      AList.update (dkgRound m)
                        (AList.update (ProposerID m) mKey forRound)
                        (dkgMasterPublicKeys s)\<rparr>))))
      else if fst req = StateAddDKGFinal then
        (case asFinalize (snd req) of
           None \<Rightarrow> Inl Panic
         | Some final \<Rightarrow>
            (case deref (finals h) final of
               None \<Rightarrow> Inl Panic
             | Some f \<Rightarrow>
                (let forRound = orEmpty (map_of (dkgFinals s) (dkgRound f))
                 in Inr (s\<lparr>dkgFinals :=
                      AList.update (dkgRound f)
                        (AList.update (ProposerID f) final forRound)
                        (dkgFinals s)\<rparr>))))
      else if fst req = StateChangeNumChains then
        (case asUint32 (snd req) of None \<Rightarrow> Inl Panic
         | Some u \<Rightarrow> Inr (s\<lparr>numChains := u\<rparr>))
      else if fst req = StateChangeLambdaBA then
        (case asUint64 (snd req) of None \<Rightarrow> Inl Panic
         | Some u \<Rightarrow> Inr (s\<lparr>lambdaBA := Duration_of_uint64 u\<rparr>))
      else if fst req = StateChangeLambdaDKG then
        (case asUint64 (snd req) of None \<Rightarrow> Inl Panic
         | Some u \<Rightarrow> Inr (s\<lparr>lambdaDKG := Duration_of_uint64 u\<rparr>))
      else if fst req = StateChangeRoundInterval then
        (case asUint64 (snd req) of None \<Rightarrow> Inl Panic
         | Some u \<Rightarrow> Inr (s\<lparr>roundInterval := Duration_of_uint64 u\<rparr>))
      else if fst req = StateChangeMinBlockInterval then
        (case asUint64 (snd req) of None \<Rightarrow> Inl Panic
         | Some u \<Rightarrow> Inr (s\<lparr>minBlockInterval := Duration_of_uint64 u\<rparr>))
      else if fst req = StateChangeMaxBlockInterval then
        (case asUint64 (snd req) of None \<Rightarrow> Inl Panic
         | Some u \<Rightarrow> Inr (s\<lparr>maxBlockInterval := Duration_of_uint64 u\<rparr>))
      else if fst req = StateChangeK then
        (case asUint64 (snd req) of None \<Rightarrow> Inl Panic
         | Some u \<Rightarrow> Inr (s\<lparr>k := int_of_uint64 u\<rparr>))
      else if fst req = StateChangePhiRatio then
        (case asUint32 (snd req) of None \<Rightarrow> Inl Panic
         | Some u \<Rightarrow> Inr (s\<lparr>phiRatio := Float32frombits u\<rparr>))
      else if fst req = StateChangeNotarySetSize then
        (case asUint32 (snd req) of None \<Rightarrow> Inl Panic
         | Some u \<Rightarrow> Inr (s\<lparr>notarySetSize := u\<rparr>))
      else if fst req = StateChangeDKGSetSize then
        (case asUint32 (snd req) of None \<Rightarrow> Inl Panic
         | Some u \<Rightarrow> Inr (s\<lparr>dkgSetSize := u\<rparr>))
      else Inl ErrKiddingMe)"

subsection \<open>RequestChange and ProposeCRS\<close>

text \<open>The first switch of \<^verbatim>\<open>RequestChange\<close>, which patches the type of the payload.\<close>

definition patchPayload :: "StateChangeType \<Rightarrow> payload \<Rightarrow> payload option" where
  "patchPayload t p =
     (if t = StateAddNode then map_option (\<lambda>key. PBytes (Bytes key)) (asPublicKey p)
      else if t = StateChangeLambdaBA \<or> t = StateChangeLambdaDKG \<or> t = StateChangeRoundInterval \<or>
              t = StateChangeMinBlockInterval \<or> t = StateChangeMaxBlockInterval
        then map_option (\<lambda>d. PUint64 (uint64_of_Duration d)) (asDuration p)
      else if t = StateChangeK then map_option (\<lambda>i. PUint64 (uint64_of_int i)) (asInt p)
      else if t = StateChangePhiRatio then map_option (\<lambda>f. PUint32 (Float32bits f)) (asFloat32 p)
      else Some p)"

text \<open>The last switch of \<^verbatim>\<open>RequestChange\<close>, which files a valid request of a
  replicated state under its pending buffer.\<close>

definition addPending :: "State \<Rightarrow> StateChangeType \<Rightarrow> payload \<Rightarrow> error option \<times> State" where
  "addPending s t p =
     (if t = StateAddNode then
        (case asBytes p of None \<Rightarrow> (Some Panic, s)
         | Some bs \<Rightarrow> (None, s\<lparr>pendingNodes := pendingNodes s @ [bs]\<rparr>))
      else if t = StateAddCRS then
        (case asCRS p of None \<Rightarrow> (Some Panic, s)
         | Some a \<Rightarrow> (None, s\<lparr>pendingCRS := pendingCRS s @ [a]\<rparr>))
      else if t = StateAddDKGComplaint then
        (case asComplaint p of None \<Rightarrow> (Some Panic, s)
         | Some a \<Rightarrow> (None, s\<lparr>pendingDKGComplaints := pendingDKGComplaints s @ [a]\<rparr>))
      else if t = StateAddDKGMasterPublicKey then
        (case asMasterPublicKey p of None \<Rightarrow> (Some Panic, s)
         | Some a \<Rightarrow> (None, s\<lparr>pendingDKGMasterPublicKeys := pendingDKGMasterPublicKeys s @ [a]\<rparr>))
      else if t = StateAddDKGFinal then
        (case asFinalize p of None \<Rightarrow> (Some Panic, s)
         | Some a \<Rightarrow> (None, s\<lparr>pendingDKGFinals := pendingDKGFinals s @ [a]\<rparr>))
      else (None, s\<lparr>pendingChangedConfigs := AList.update t p (pendingChangedConfigs s)\<rparr>))"

definition RequestChange ::
  "lib \<Rightarrow> heap \<Rightarrow> State \<Rightarrow> StateChangeType \<Rightarrow> payload \<Rightarrow> error option \<times> State" where
  "RequestChange l h s t p0 =
     (case patchPayload t p0 of
        None \<Rightarrow> (Some Panic, s)
      | Some p \<Rightarrow>
         (if local s then
            (case isValidRequest h s (t, p) of
               Some e \<Rightarrow> (Some e, s)
             | None \<Rightarrow>
                (case applyRequest l h s (t, p) of
                   Inl e \<Rightarrow> (Some e, s)
                 | Inr s' \<Rightarrow> (None, s')))
          else
            (case isValidRequest h s (t, p) of
               Some e \<Rightarrow> (Some e, s)
             | None \<Rightarrow> addPending s t p)))"

text \<open>\<^verbatim>\<open>ProposeCRS\<close> allocates the request and submits a pointer to it.\<close>

definition allocCRS :: "crsAdditionRequest \<Rightarrow> heap \<Rightarrow> addr \<times> heap" where
  "allocCRS r h = (length (crsRequests h), h\<lparr>crsRequests := crsRequests h @ [r]\<rparr>)"

definition allocComplaint :: "Complaint \<Rightarrow> heap \<Rightarrow> addr \<times> heap" where
  "allocComplaint c h = (length (complaints h), h\<lparr>complaints := complaints h @ [c]\<rparr>)"

definition allocMasterPublicKey :: "MasterPublicKey \<Rightarrow> heap \<Rightarrow> addr \<times> heap" where
  "allocMasterPublicKey m h =
     (length (masterPublicKeys h), h\<lparr>masterPublicKeys := masterPublicKeys h @ [m]\<rparr>)"

definition allocFinalize :: "Finalize \<Rightarrow> heap \<Rightarrow> addr \<times> heap" where
  "allocFinalize f h = (length (finals h), h\<lparr>finals := finals h @ [f]\<rparr>)"

definition ProposeCRS ::
  "lib \<Rightarrow> heap \<Rightarrow> State \<Rightarrow> uint64 \<Rightarrow> Hash \<Rightarrow> error option \<times> State \<times> heap" where
  "ProposeCRS l h s round c =
     (let (a, h') = allocCRS \<lparr>Round = round, CRS = c\<rparr> h;
          (err, s') = RequestChange l h' s StateAddCRS (PCRS a)
      in (err, s', h'))"

subsection \<open>PackRequests\<close>

text \<open>\<^verbatim>\<open>rlp.EncodeToBytes\<close> on an \<^verbatim>\<open>interface{}\<close> goes by the dynamic type of the
  value. Signed integers, floats and the key interface are not RLP-serializable; the
  encoding of a nil record pointer is taken to fail too (no state of this file packs
  one: the validator and the applier dereference what they are given).\<close>

definition encodePayload :: "lib \<Rightarrow> heap \<Rightarrow> payload \<Rightarrow> string + bytes" where
  "encodePayload l h p =
     (case p of
        PUint32 u \<Rightarrow> EncodeUint32 l u
      | PUint64 u \<Rightarrow> EncodeUint64 l u
      | PBytes bs \<Rightarrow> EncodeBytes l bs
      | PCRS a \<Rightarrow>
          (case deref (crsRequests h) a of
             None \<Rightarrow> Inl ''rlp: nil pointer'' | Some r \<Rightarrow> EncodeCRS l r)
      | PComplaint a \<Rightarrow>
          (case deref (complaints h) a of
             None \<Rightarrow> Inl ''rlp: nil pointer'' | Some c \<Rightarrow> EncodeComplaint l c)
      | PMasterPublicKey a \<Rightarrow>
          (case deref (masterPublicKeys h) a of
             None \<Rightarrow> Inl ''rlp: nil pointer'' | Some m \<Rightarrow> EncodeMasterPublicKey l m)
      | PFinalize a \<Rightarrow>
          (case deref (finals h) a of
             None \<Rightarrow> Inl ''rlp: nil pointer'' | Some f \<Rightarrow> EncodeFinalize l f)
      | _ \<Rightarrow> Inl ''rlp: type is not RLP-serializable'')"

fun encodeAll :: "lib \<Rightarrow> heap \<Rightarrow> StateChangeRequest list \<Rightarrow> string + rawStateChangeRequest list" where
  "encodeAll l h [] = Inr []"
| "encodeAll l h (req # reqs) =
     (case encodePayload l h (snd req) of
        Inl msg \<Rightarrow> Inl msg
      | Inr raw \<Rightarrow>
         (case encodeAll l h reqs of
            Inl msg \<Rightarrow> Inl msg
          | Inr raws \<Rightarrow> Inr ((fst req, raw) # raws)))"

definition EncodeToBytes :: "lib \<Rightarrow> heap \<Rightarrow> StateChangeRequest list \<Rightarrow> error + bytes" where
  "EncodeToBytes l h packed =
     (case encodeAll l h packed of
        Inl msg \<Rightarrow> Inl (External msg)
      | Inr raws \<Rightarrow>
         (case EncodeRequests l raws of
            Inl msg \<Rightarrow> Inl (External msg)
          | Inr b \<Rightarrow> Inr b))"

text \<open>The slice \<^verbatim>\<open>packed\<close> that \<^verbatim>\<open>PackRequests\<close> builds, and the state it leaves: each
  loop appends to \<^verbatim>\<open>packed\<close>; the map of pending configuration changes is replaced by a
  fresh one after the first loop.\<close>

definition packRequests :: "State \<Rightarrow> StateChangeRequest list \<times> State" where
  "packRequests s =
     (let packed0 = foldl (\<lambda>packed (key, v). packed @ [(key, v)]) [] (pendingChangedConfigs s);
          s' = s\<lparr>pendingChangedConfigs := []\<rparr>;
          packed1 = foldl (\<lambda>packed bytesOfKey. packed @ [(StateAddNode, PBytes bytesOfKey)])
                      packed0 (pendingNodes s');
          packed2 = foldl (\<lambda>packed compl. packed @ [(StateAddDKGComplaint, PComplaint compl)])
                      packed1 (pendingDKGComplaints s');
          packed3 = foldl (\<lambda>packed final. packed @ [(StateAddDKGFinal, PFinalize final)])
                      packed2 (pendingDKGFinals s');
          packed4 = foldl (\<lambda>packed masterPubKey.
                        packed @ [(StateAddDKGMasterPublicKey, PMasterPublicKey masterPubKey)])
                      packed3 (pendingDKGMasterPublicKeys s');
          packed5 = foldl (\<lambda>packed c. packed @ [(StateAddCRS, PCRS c)])
                      packed4 (pendingCRS s')
      in (packed5, s'))"

definition PackRequests :: "lib \<Rightarrow> heap \<Rightarrow> State \<Rightarrow> (error + bytes) \<times> State" where
  "PackRequests l h s = (case packRequests s of (packed, s') \<Rightarrow> (EncodeToBytes l h packed, s'))"

subsection \<open>Apply\<close>

text \<open>What \<^verbatim>\<open>rlp.DecodeBytes\<close> fills the fresh value of \<^verbatim>\<open>unpackPayload\<close> with.\<close>

datatype decoded =
    DCRS crsAdditionRequest
  | DComplaint Complaint
  | DMasterPublicKey MasterPublicKey
  | DFinalize Finalize
  | DUint32 uint32
  | DUint64 uint64
  | DBytes bytes

definition decodeWith :: "(bytes \<Rightarrow> string + 'a) \<Rightarrow> ('a \<Rightarrow> decoded) \<Rightarrow> bytes \<Rightarrow> error + decoded" where
  "decodeWith dec wrap raw = (case dec raw of Inl msg \<Rightarrow> Inl (External msg) | Inr v \<Rightarrow> Inr (wrap v))"

definition decodePayload :: "lib \<Rightarrow> rawStateChangeRequest \<Rightarrow> error + decoded" where
  "decodePayload l raw =
     (if fst raw = StateAddCRS then decodeWith (DecodeCRS l) DCRS (snd raw)
      else if fst raw = StateAddDKGComplaint then decodeWith (DecodeComplaint l) DComplaint (snd raw)
      else if fst raw = StateAddDKGMasterPublicKey
        then decodeWith (DecodeMasterPublicKey l) DMasterPublicKey (snd raw)
      else if fst raw = StateAddDKGFinal then decodeWith (DecodeFinalize l) DFinalize (snd raw)
      else if fst raw = StateChangeNumChains then decodeWith (DecodeUint32 l) DUint32 (snd raw)
      else if fst raw = StateChangeLambdaBA then decodeWith (DecodeUint64 l) DUint64 (snd raw)
      else if fst raw = StateChangeLambdaDKG then decodeWith (DecodeUint64 l) DUint64 (snd raw)
      else if fst raw = StateChangeRoundInterval then decodeWith (DecodeUint64 l) DUint64 (snd raw)
      else if fst raw = StateChangeMinBlockInterval then decodeWith (DecodeUint64 l) DUint64 (snd raw)
      else if fst raw = StateChangeMaxBlockInterval then decodeWith (DecodeUint64 l) DUint64 (snd raw)
      else if fst raw = StateChangeK then decodeWith (DecodeUint64 l) DUint64 (snd raw)
      else if fst raw = StateChangePhiRatio then decodeWith (DecodeUint32 l) DUint32 (snd raw)
      else if fst raw = StateChangeNotarySetSize then decodeWith (DecodeUint32 l) DUint32 (snd raw)
      else if fst raw = StateChangeDKGSetSize then decodeWith (DecodeUint32 l) DUint32 (snd raw)
      else if fst raw = StateAddNode then decodeWith (DecodeBytes l) DBytes (snd raw)
      else Inl ErrUnknownStateChangeType)"

text \<open>The value \<^verbatim>\<open>v\<close> that \<^verbatim>\<open>unpackPayload\<close> returns: a pointer to the new record, or
  the number or byte string itself.\<close>

definition allocDecoded :: "decoded \<Rightarrow> heap \<Rightarrow> payload \<times> heap" where
  "allocDecoded v h =
     (case v of
        DCRS r \<Rightarrow> (case allocCRS r h of (a, h') \<Rightarrow> (PCRS a, h'))
      | DComplaint c \<Rightarrow> (case allocComplaint c h of (a, h') \<Rightarrow> (PComplaint a, h'))
      | DMasterPublicKey m \<Rightarrow>
          (case allocMasterPublicKey m h of (a, h') \<Rightarrow> (PMasterPublicKey a, h'))
      | DFinalize f \<Rightarrow> (case allocFinalize f h of (a, h') \<Rightarrow> (PFinalize a, h'))
      | DUint32 u \<Rightarrow> (PUint32 u, h)
      | DUint64 u \<Rightarrow> (PUint64 u, h)
      | DBytes bs \<Rightarrow> (PBytes bs, h))"

definition unpackPayload :: "lib \<Rightarrow> rawStateChangeRequest \<Rightarrow> heap \<Rightarrow> error + (payload \<times> heap)" where
  "unpackPayload l raw h =
     (case decodePayload l raw of Inl e \<Rightarrow> Inl e | Inr v \<Rightarrow> Inr (allocDecoded v h))"

text \<open>The first loop of \<^verbatim>\<open>Apply\<close>: it returns at the first payload that does not
  decode.\<close>

fun unpackAll ::
  "lib \<Rightarrow> rawStateChangeRequest list \<Rightarrow> heap \<Rightarrow> error + (StateChangeRequest list \<times> heap)" where
  "unpackAll l [] h = Inr ([], h)"
| "unpackAll l (r # rs) h =
     (case unpackPayload l r h of
        Inl e \<Rightarrow> Inl e
      | Inr (p, h1) \<Rightarrow>
         (case unpackAll l rs h1 of
            Inl e \<Rightarrow> Inl e
          | Inr (reqs, h2) \<Rightarrow> Inr ((fst r, p) # reqs, h2)))"

text \<open>The second loop of \<^verbatim>\<open>Apply\<close>: it returns at the first request that fails, and
  keeps what the requests before it did.\<close>

fun applyAll :: "lib \<Rightarrow> heap \<Rightarrow> State \<Rightarrow> StateChangeRequest list \<Rightarrow> error option \<times> State" where
  "applyAll l h s [] = (None, s)"
| "applyAll l h s (req # reqs) =
     (case applyRequest l h s req of
        Inl e \<Rightarrow> (Some e, s)
      | Inr s' \<Rightarrow> applyAll l h s' reqs)"

text \<open>The heap \<^verbatim>\<open>Apply\<close> returns holds the records it decoded; when it returns before
  the second loop, what it had decoded is unreachable and the heap is the one it was
  given.\<close>

definition Apply :: "lib \<Rightarrow> bytes \<Rightarrow> State \<Rightarrow> heap \<Rightarrow> error option \<times> State \<times> heap" where
  "Apply l reqsAsBytes s h =
     (case DecodeRequests l reqsAsBytes of
        Inl msg \<Rightarrow> (Some (External msg), s, h)
      | Inr rawReqs \<Rightarrow>
         (case unpackAll l rawReqs h of
            Inl e \<Rightarrow> (Some e, s, h)
          | Inr (reqs, h') \<Rightarrow>
             (case applyAll l h' s reqs of (err, s') \<Rightarrow> (err, s', h'))))"

subsection \<open>Equal\<close>

text \<open>The comparison \<^verbatim>\<open>Equal\<close> makes of two maps: the lengths, then, for every entry of
  the receiver's map, the entry of the other map under the same key. Every mismatch in one
  map returns the same error, so the loop is a conjunction. Two slices are compared by
  their lengths and then index by index, which is \<open>list_all2\<close>.\<close>

definition mapsAgree :: "('v \<Rightarrow> 'w \<Rightarrow> bool) \<Rightarrow> ('k, 'v) goMap \<Rightarrow> ('k, 'w) goMap \<Rightarrow> bool" where
  "mapsAgree same m other =
     (length m = length other \<and>
      list_all (\<lambda>(key, v). case map_of other key of None \<Rightarrow> False | Some ov \<Rightarrow> same v ov) m)"

text \<open>Modelled from the spec: \<^verbatim>\<open>Equal\<close> of two DKG records is structural equality.\<close>

definition sameRecord :: "'a list \<Rightarrow> addr \<Rightarrow> addr \<Rightarrow> bool" where
  "sameRecord cells a b =
     (case deref cells a of
        None \<Rightarrow> False
      | Some x \<Rightarrow> (case deref cells b of None \<Rightarrow> False | Some y \<Rightarrow> x = y))"

text \<open>\<^verbatim>\<open>reflect.DeepEqual\<close>: two pointers are deeply equal when they are equal or point to
  deeply equal values; two interface values when they hold the same dynamic type and
  deeply equal values.\<close>

definition ptrDeepEqual :: "'a list \<Rightarrow> addr \<Rightarrow> addr \<Rightarrow> bool" where
  "ptrDeepEqual cells a b = (a = b \<or> sameRecord cells a b)"

definition deepEqualPayload :: "heap \<Rightarrow> payload \<Rightarrow> payload \<Rightarrow> bool" where
  "deepEqualPayload h p q =
     (case p of
        PPublicKey x \<Rightarrow> asPublicKey q = Some x
      | PBytes x \<Rightarrow> asBytes q = Some x
      | PCRS a \<Rightarrow> (case asCRS q of None \<Rightarrow> False | Some b \<Rightarrow> ptrDeepEqual (crsRequests h) a b)
      | PComplaint a \<Rightarrow>
          (case asComplaint q of None \<Rightarrow> False | Some b \<Rightarrow> ptrDeepEqual (complaints h) a b)
      | PMasterPublicKey a \<Rightarrow>
          (case asMasterPublicKey q of
             None \<Rightarrow> False | Some b \<Rightarrow> ptrDeepEqual (masterPublicKeys h) a b)
      | PFinalize a \<Rightarrow>
          (case asFinalize q of None \<Rightarrow> False | Some b \<Rightarrow> ptrDeepEqual (finals h) a b)
      | PDuration x \<Rightarrow> asDuration q = Some x
      | PInt x \<Rightarrow> asInt q = Some x
      | PFloat32 x \<Rightarrow> (case asFloat32 q of None \<Rightarrow> False | Some y \<Rightarrow> float32_eq x y)
      | PUint32 x \<Rightarrow> asUint32 q = Some x
      | PUint64 x \<Rightarrow> asUint64 q = Some x)"

definition configEqual :: "State \<Rightarrow> State \<Rightarrow> bool" where
  "configEqual s other =
     (numChains s = numChains other \<and>
      lambdaBA s = lambdaBA other \<and>
      lambdaDKG s = lambdaDKG other \<and>
      k s = k other \<and>
      float32_eq (phiRatio s) (phiRatio other) \<and>
      notarySetSize s = notarySetSize other \<and>
      dkgSetSize s = dkgSetSize other \<and>
      roundInterval s = roundInterval other \<and>
      minBlockInterval s = minBlockInterval other \<and>
      maxBlockInterval s = maxBlockInterval other)"

definition Equal :: "heap \<Rightarrow> State \<Rightarrow> State \<Rightarrow> error option" where
  "Equal h s other =
     (if \<not> configEqual s other then Some ErrStateConfigNotEqual
      else if local s \<noteq> local other then Some ErrStateLocalFlagNotEqual
      else if \<not> mapsAgree (\<lambda>key otherKey. Bytes key = Bytes otherKey) (nodes s) (nodes other)
        then Some ErrStateNodeSetNotEqual
      else if \<not> mapsAgree (mapsAgree (list_all2 (sameRecord (complaints h))))
                  (dkgComplaints s) (dkgComplaints other)
        then Some ErrStateDKGComplaintsNotEqual
      else if \<not> mapsAgree (mapsAgree (sameRecord (masterPublicKeys h)))
                  (dkgMasterPublicKeys s) (dkgMasterPublicKeys other)
        then Some ErrStateDKGMasterPublicKeysNotEqual
      else if \<not> mapsAgree (mapsAgree (sameRecord (finals h))) (dkgFinals s) (dkgFinals other)
        then Some ErrStateDKGFinalsNotEqual
      else if \<not> list_all2 (=) (crs s) (crs other) then Some ErrStateCRSsNotEqual
      else if \<not> mapsAgree (deepEqualPayload h)
                  (pendingChangedConfigs s) (pendingChangedConfigs other)
        then Some ErrStatePendingChangesNotEqual
      else if \<not> list_all2 (ptrDeepEqual (crsRequests h)) (pendingCRS s) (pendingCRS other)
        then Some ErrStatePendingChangesNotEqual
      else if \<not> list_all2 (=) (pendingNodes s) (pendingNodes other)
        then Some ErrStatePendingChangesNotEqual
      else if \<not> list_all2 (sameRecord (complaints h))
                  (pendingDKGComplaints s) (pendingDKGComplaints other)
        then Some ErrStatePendingChangesNotEqual
      else if \<not> list_all2 (sameRecord (finals h)) (pendingDKGFinals s) (pendingDKGFinals other)
        then Some ErrStatePendingChangesNotEqual
      else if \<not> list_all2 (sameRecord (masterPublicKeys h))
                  (pendingDKGMasterPublicKeys s) (pendingDKGMasterPublicKeys other)
        then Some ErrStatePendingChangesNotEqual
      else None)"

subsection \<open>Clone\<close>










subsection \<open>Well-formed states\<close>

text \<open>What every state of a running program satisfies: the keys of a map are distinct, and
  a pointer held by the state points to a record on the heap.\<close>

definition allocated :: "'a list \<Rightarrow> addr \<Rightarrow> bool" where
  "allocated cells a = (a < length cells)"

definition tableOK :: "('v \<Rightarrow> bool) \<Rightarrow> (uint64, (NodeID, 'v) goMap) goMap \<Rightarrow> bool" where
  "tableOK ok table =
     (distinct (map fst table) \<and>
      list_all (\<lambda>(round, forRound). distinct (map fst forRound) \<and> list_all (\<lambda>(nID, v). ok v) forRound)
        table)"

definition validState :: "heap \<Rightarrow> State \<Rightarrow> bool" where
  "validState h s =
     (distinct (map fst (nodes s)) \<and>
      tableOK (list_all (allocated (complaints h))) (dkgComplaints s) \<and>
      tableOK (allocated (masterPublicKeys h)) (dkgMasterPublicKeys s) \<and>
      tableOK (allocated (finals h)) (dkgFinals s) \<and>
      distinct (map fst (pendingChangedConfigs s)) \<and>
      list_all (allocated (complaints h)) (pendingDKGComplaints s) \<and>
      list_all (allocated (finals h)) (pendingDKGFinals s) \<and>
      list_all (allocated (masterPublicKeys h)) (pendingDKGMasterPublicKeys s) \<and>
      list_all (allocated (crsRequests h)) (pendingCRS s))"

subsection \<open>Predicates the properties are stated with\<close>




subsection \<open>Heaps that grow, and copies\<close>

text \<open>Records are allocated and never freed or moved: a later heap has the cells of an
  earlier one at the same addresses, and more.\<close>

definition heapExtends :: "heap \<Rightarrow> heap \<Rightarrow> bool" where
  "heapExtends h h' =
     (prefix (crsRequests h) (crsRequests h') \<and> prefix (complaints h) (complaints h') \<and>
      prefix (masterPublicKeys h) (masterPublicKeys h') \<and> prefix (finals h) (finals h'))"



text \<open>The keys of a map of maps, as an association list holds them.\<close>

definition tableKeysDistinct :: "('r \<times> ('n \<times> 'v) list) list \<Rightarrow> bool" where
  "tableKeysDistinct tab = (distinct (map fst tab) \<and> (\<forall>r\<in>set tab. distinct (map fst (snd r))))"



text \<open>The checks of \<^verbatim>\<open>Equal\<close> after the one of the configuration.\<close>

definition restEqual :: "heap \<Rightarrow> State \<Rightarrow> State \<Rightarrow> bool" where
  "restEqual h s other =
     (local s = local other \<and>
      mapsAgree (\<lambda>key otherKey. Bytes key = Bytes otherKey) (nodes s) (nodes other) \<and>
      mapsAgree (mapsAgree (list_all2 (sameRecord (complaints h))))
        (dkgComplaints s) (dkgComplaints other) \<and>
      mapsAgree (mapsAgree (sameRecord (masterPublicKeys h)))
        (dkgMasterPublicKeys s) (dkgMasterPublicKeys other) \<and>
      mapsAgree (mapsAgree (sameRecord (finals h))) (dkgFinals s) (dkgFinals other) \<and>
      list_all2 (=) (crs s) (crs other) \<and>
      mapsAgree (deepEqualPayload h) (pendingChangedConfigs s) (pendingChangedConfigs other) \<and>
      list_all2 (ptrDeepEqual (crsRequests h)) (pendingCRS s) (pendingCRS other) \<and>
      list_all2 (=) (pendingNodes s) (pendingNodes other) \<and>
      list_all2 (sameRecord (complaints h)) (pendingDKGComplaints s) (pendingDKGComplaints other) \<and>
      list_all2 (sameRecord (finals h)) (pendingDKGFinals s) (pendingDKGFinals other) \<and>
      list_all2 (sameRecord (masterPublicKeys h))
        (pendingDKGMasterPublicKeys s) (pendingDKGMasterPublicKeys other))"







subsection \<open>States that agree on what Apply reads and writes\<close>

text \<open>The keys of the maps that \<^verbatim>\<open>applyRequest\<close> writes.\<close>

definition keysDistinct :: "State \<Rightarrow> bool" where
  "keysDistinct s =
     (distinct (map fst (nodes s)) \<and> tableKeysDistinct (dkgComplaints s) \<and>
      tableKeysDistinct (dkgMasterPublicKeys s) \<and> tableKeysDistinct (dkgFinals s))"

text \<open>Two states agree on what \<^verbatim>\<open>Apply\<close> reads and writes. The two \<open>phiRatio\<close> are the
  same bits or equal numbers.\<close>

definition appliedAgree :: "heap \<Rightarrow> State \<Rightarrow> State \<Rightarrow> bool" where
  "appliedAgree h s other =
     (numChains s = numChains other \<and>
      lambdaBA s = lambdaBA other \<and>
      lambdaDKG s = lambdaDKG other \<and>
      k s = k other \<and>
      (phiRatio s = phiRatio other \<or> float32_eq (phiRatio s) (phiRatio other)) \<and>
      notarySetSize s = notarySetSize other \<and>
      dkgSetSize s = dkgSetSize other \<and>
      roundInterval s = roundInterval other \<and>
      minBlockInterval s = minBlockInterval other \<and>
      maxBlockInterval s = maxBlockInterval other \<and>
      mapsAgree (\<lambda>key otherKey. Bytes key = Bytes otherKey) (nodes s) (nodes other) \<and>
      mapsAgree (mapsAgree (list_all2 (sameRecord (complaints h))))
        (dkgComplaints s) (dkgComplaints other) \<and>
      mapsAgree (mapsAgree (sameRecord (masterPublicKeys h)))
        (dkgMasterPublicKeys s) (dkgMasterPublicKeys other) \<and>
      mapsAgree (mapsAgree (sameRecord (finals h))) (dkgFinals s) (dkgFinals other) \<and>
      crs s = crs other)"

text \<open>The payload \<open>p\<close> is the value \<open>v\<close> as \<^verbatim>\<open>unpackPayload\<close> returns it: the number or
  the bytes, or a pointer to the record.\<close>

definition holdsValue :: "heap \<Rightarrow> payload \<Rightarrow> decoded \<Rightarrow> bool" where
  "holdsValue h p v =
     (case v of
        DCRS r \<Rightarrow> (case asCRS p of None \<Rightarrow> False | Some a \<Rightarrow> deref (crsRequests h) a = Some r)
      | DComplaint c \<Rightarrow>
          (case asComplaint p of None \<Rightarrow> False | Some a \<Rightarrow> deref (complaints h) a = Some c)
      | DMasterPublicKey m \<Rightarrow>
          (case asMasterPublicKey p of
             None \<Rightarrow> False | Some a \<Rightarrow> deref (masterPublicKeys h) a = Some m)
      | DFinalize f \<Rightarrow>
          (case asFinalize p of None \<Rightarrow> False | Some a \<Rightarrow> deref (finals h) a = Some f)
      | DUint32 u \<Rightarrow> p = PUint32 u
      | DUint64 u \<Rightarrow> p = PUint64 u
      | DBytes bs \<Rightarrow> p = PBytes bs)"

text \<open>Two requests of the same type whose payloads are the same decoded value.\<close>

definition sameRequest :: "heap \<Rightarrow> StateChangeRequest \<Rightarrow> StateChangeRequest \<Rightarrow> bool" where
  "sameRequest h req other =
     (fst req = fst other \<and> (\<exists>v. holdsValue h (snd req) v \<and> holdsValue h (snd other) v))"

text \<open>What a step of the second loop of \<^verbatim>\<open>Apply\<close> does to two states that agree.\<close>

definition stepsAgree :: "heap \<Rightarrow> error + State \<Rightarrow> error + State \<Rightarrow> bool" where
  "stepsAgree h r r' =
     (case r of
        Inl e \<Rightarrow> r' = Inl e
      | Inr x \<Rightarrow>
         (case r' of
            Inl e \<Rightarrow> False
          | Inr y \<Rightarrow> appliedAgree h x y \<and> keysDistinct x \<and> keysDistinct y))"

subsection \<open>A library to run the model on\<close>

text \<open>
  The theorems below hold for every library. To evaluate the model on concrete inputs
  the parameter is instantiated with \<open>sampleLib\<close>: the RLP encoding (a string is its
  bytes behind a length prefix, a list the concatenation of its items behind one, an
  integer the string of its big-endian bytes without leading zeros; decoding insists on
  the shortest form), a key parser that accepts the 33 bytes of a compressed key, and, in
  place of Keccak-256, which no theorem looks into, the first 32 bytes of the zero-padded
  input. A DKG record is encoded as the list of its three fields.
\<close>

definition beBytes :: "uint64 \<Rightarrow> bytes" where
  "beBytes x =
     dropWhile (\<lambda>b. b = 0)
       [ucast (drop_bit 56 x), ucast (drop_bit 48 x), ucast (drop_bit 40 x), ucast (drop_bit 32 x),
        ucast (drop_bit 24 x), ucast (drop_bit 16 x), ucast (drop_bit 8 x), ucast x]"

definition beDecode :: "bytes \<Rightarrow> uint64" where
  "beDecode bs = foldl (\<lambda>acc b. push_bit 8 acc OR ucast b) 0 bs"

definition rlpHeader :: "nat \<Rightarrow> nat \<Rightarrow> bytes" where
  "rlpHeader base n =
     (if n < 56 then [of_nat (base + n)]
      else (let lenBytes = beBytes (of_nat n)
            in of_nat (base + 55 + length lenBytes) # lenBytes))"

definition rlpString :: "bytes \<Rightarrow> bytes" where
  "rlpString bs =
     (if length bs = 1 \<and> unat (hd bs) < 128 then bs else rlpHeader 128 (length bs) @ bs)"

definition rlpList :: "bytes list \<Rightarrow> bytes" where
  "rlpList items = rlpHeader 192 (length (concat items)) @ concat items"

definition rlpUint :: "uint64 \<Rightarrow> bytes" where
  "rlpUint x = rlpString (beBytes x)"

definition takeExact :: "nat \<Rightarrow> bytes \<Rightarrow> (bytes \<times> bytes) option" where
  "takeExact n bs = (if length bs < n then None else Some (take n bs, drop n bs))"

definition takeLong :: "nat \<Rightarrow> bytes \<Rightarrow> (bytes \<times> bytes) option" where
  "takeLong lenLen bs =
     (case takeExact lenLen bs of
        None \<Rightarrow> None
      | Some (lenBytes, rest) \<Rightarrow>
         if hd lenBytes = 0 \<or> unat (beDecode lenBytes) < 56 then None
         else takeExact (unat (beDecode lenBytes)) rest)"

text \<open>One item off the front of the input: whether it is a list, its content, and the
  input after it.\<close>

definition rlpSplit :: "bytes \<Rightarrow> (bool \<times> bytes \<times> bytes) option" where
  "rlpSplit bs =
     (case bs of
        [] \<Rightarrow> None
      | b # rest \<Rightarrow>
         (if unat b < 128 then Some (False, [b], rest)
          else if unat b < 184 then
            (case takeExact (unat b - 128) rest of
               None \<Rightarrow> None
             | Some (content, after) \<Rightarrow>
                if length content = 1 \<and> unat (hd content) < 128 then None
                else Some (False, content, after))
          else if unat b < 192 then
            map_option (Pair False) (takeLong (unat b - 183) rest)
          else if unat b < 248 then
            map_option (Pair True) (takeExact (unat b - 192) rest)
          else map_option (Pair True) (takeLong (unat b - 247) rest)))"

text \<open>The items of the content of a list, each with its header; the fuel is the length
  of the input, of which every item takes at least one byte.\<close>

fun rlpItemsFrom :: "nat \<Rightarrow> bytes \<Rightarrow> bytes list option" where
  "rlpItemsFrom fuel [] = Some []"
| "rlpItemsFrom 0 (b # bs) = None"
| "rlpItemsFrom (Suc fuel) (b # bs) =
     (case rlpSplit (b # bs) of
        None \<Rightarrow> None
      | Some (isList, content, after) \<Rightarrow>
         map_option ((#) (take (length (b # bs) - length after) (b # bs))) (rlpItemsFrom fuel after))"

definition rlpItems :: "bytes \<Rightarrow> bytes list option" where
  "rlpItems bs = rlpItemsFrom (length bs) bs"

definition rlpListItems :: "bytes \<Rightarrow> bytes list option" where
  "rlpListItems raw =
     (case rlpSplit raw of
        Some (True, content, []) \<Rightarrow> rlpItems content
      | _ \<Rightarrow> None)"

definition rlpDecodeString :: "bytes \<Rightarrow> string + bytes" where
  "rlpDecodeString raw =
     (case rlpSplit raw of
        Some (False, content, []) \<Rightarrow> Inr content
      | _ \<Rightarrow> Inl ''rlp: expected input string or byte'')"

definition rlpDecodeUint :: "nat \<Rightarrow> bytes \<Rightarrow> string + uint64" where
  "rlpDecodeUint maxLen raw =
     (case rlpDecodeString raw of
        Inl msg \<Rightarrow> Inl msg
      | Inr content \<Rightarrow>
         if length content > maxLen then Inl ''rlp: input string too long''
         else if content \<noteq> [] \<and> hd content = 0 then Inl ''rlp: non-canonical integer format''
         else Inr (beDecode content))"

definition rlpDecodeHash :: "bytes \<Rightarrow> string + Hash" where
  "rlpDecodeHash raw =
     (case rlpDecodeString raw of
        Inl msg \<Rightarrow> Inl msg
      | Inr content \<Rightarrow>
         if length content \<noteq> 32 then Inl ''rlp: input string has the wrong length''
         else Inr content)"

definition rlpEncodeCRS :: "crsAdditionRequest \<Rightarrow> bytes" where
  "rlpEncodeCRS r = rlpList [rlpUint (Round r), rlpString (CRS r)]"

definition rlpDecodeCRS :: "bytes \<Rightarrow> string + crsAdditionRequest" where
  "rlpDecodeCRS raw =
     (case rlpListItems raw of
        Some [r, c] \<Rightarrow>
          (case rlpDecodeUint 8 r of
             Inl msg \<Rightarrow> Inl msg
           | Inr round \<Rightarrow>
              (case rlpDecodeHash c of
                 Inl msg \<Rightarrow> Inl msg
               | Inr hash \<Rightarrow> Inr \<lparr>Round = round, CRS = hash\<rparr>))
      | _ \<Rightarrow> Inl ''rlp: expected a list of two items'')"

text \<open>Modelled from the spec: the canonical encoding of a DKG record.\<close>

definition rlpEncodeDKG :: "dkgRecord \<Rightarrow> bytes" where
  "rlpEncodeDKG d = rlpList [rlpString (ProposerID d), rlpUint (dkgRound d), rlpString (dkgBody d)]"

definition rlpDecodeDKG :: "bytes \<Rightarrow> string + dkgRecord" where
  "rlpDecodeDKG raw =
     (case rlpListItems raw of
        Some [p, r, b] \<Rightarrow>
          (case rlpDecodeHash p of
             Inl msg \<Rightarrow> Inl msg
           | Inr proposer \<Rightarrow>
              (case rlpDecodeUint 8 r of
                 Inl msg \<Rightarrow> Inl msg
               | Inr round \<Rightarrow>
                  (case rlpDecodeString b of
                     Inl msg \<Rightarrow> Inl msg
                   | Inr body \<Rightarrow>
                      Inr \<lparr>ProposerID = proposer, dkgRound = round, dkgBody = body\<rparr>)))
      | _ \<Rightarrow> Inl ''rlp: expected a list of three items'')"

definition rlpEncodeRequests :: "rawStateChangeRequest list \<Rightarrow> bytes" where
  "rlpEncodeRequests raws = rlpList (map (\<lambda>(t, payload). rlpList [rlpUint (ucast t), payload]) raws)"

definition rlpDecodeRequest :: "bytes \<Rightarrow> string + rawStateChangeRequest" where
  "rlpDecodeRequest raw =
     (case rlpListItems raw of
        Some [t, payload] \<Rightarrow>
          (case rlpDecodeUint 1 t of
             Inl msg \<Rightarrow> Inl msg
           | Inr u \<Rightarrow> Inr (ucast u, payload))
      | _ \<Rightarrow> Inl ''rlp: expected a list of two items'')"

fun allOrError :: "('a \<Rightarrow> string + 'b) \<Rightarrow> 'a list \<Rightarrow> string + 'b list" where
  "allOrError f [] = Inr []"
| "allOrError f (x # xs) =
     (case f x of
        Inl msg \<Rightarrow> Inl msg
      | Inr y \<Rightarrow> (case allOrError f xs of Inl msg \<Rightarrow> Inl msg | Inr ys \<Rightarrow> Inr (y # ys)))"

definition rlpDecodeRequests :: "bytes \<Rightarrow> string + rawStateChangeRequest list" where
  "rlpDecodeRequests bs =
     (case rlpListItems bs of
        None \<Rightarrow> Inl ''rlp: expected a list''
      | Some items \<Rightarrow> allOrError rlpDecodeRequest items)"

definition sampleHash :: "bytes \<Rightarrow> Hash" where
  "sampleHash bs = take 32 (bs @ replicate 32 0)"

definition sampleLib :: lib where
  "sampleLib =
     \<lparr> Keccak256Hash = sampleHash,
       NewNodeID = (\<lambda>key. sampleHash (Bytes key)),
       NewPublicKeyFromByteSlice =
         (\<lambda>bs. if length bs = 33 then Inr (PublicKey bs) else Inl ''invalid public key''),
       EncodeRequests = (\<lambda>raws. Inr (rlpEncodeRequests raws)),
       DecodeRequests = rlpDecodeRequests,
       EncodeCRS = (\<lambda>r. Inr (rlpEncodeCRS r)),
       DecodeCRS = rlpDecodeCRS,
       EncodeComplaint = (\<lambda>d. Inr (rlpEncodeDKG d)),
       DecodeComplaint = rlpDecodeDKG,
       EncodeMasterPublicKey = (\<lambda>d. Inr (rlpEncodeDKG d)),
       DecodeMasterPublicKey = rlpDecodeDKG,
       EncodeFinalize = (\<lambda>d. Inr (rlpEncodeDKG d)),
       DecodeFinalize = rlpDecodeDKG,
       EncodeUint32 = (\<lambda>u. Inr (rlpUint (ucast u))),
       DecodeUint32 = (\<lambda>raw. map_sum id ucast (rlpDecodeUint 4 raw)),
       EncodeUint64 = (\<lambda>u. Inr (rlpUint u)),
       DecodeUint64 = rlpDecodeUint 8,
       EncodeBytes = (\<lambda>bs. Inr (rlpString bs)),
       DecodeBytes = rlpDecodeString \<rparr>"

subsection \<open>Sample inputs\<close>

definition emptyHeap :: heap where
  "emptyHeap = \<lparr>crsRequests = [], complaints = [], masterPublicKeys = [], finals = []\<rparr>"

definition sampleKeyA :: PublicKey where
  "sampleKeyA = PublicKey (replicate 33 1)"

definition sampleKeyB :: PublicKey where
  "sampleKeyB = PublicKey (replicate 33 2)"

text \<open>A local state of two nodes, and a heap with one CRS request for round 1.\<close>

definition localState :: State where
  "localState = NewState sampleLib [sampleKeyA, sampleKeyB] 100000000 True"

definition crsHeap :: heap where
  "crsHeap = emptyHeap\<lparr>crsRequests := [\<lparr>Round = 1, CRS = replicate 32 7\<rparr>]\<rparr>"

text \<open>Two complaint records with the same content at the addresses 0 and 1, a
  finalization of the same proposer in the same round, and states that hold the
  complaint at 0, and the finalization.\<close>

definition twinHeap :: heap where
  "twinHeap = emptyHeap
     \<lparr>complaints :=
        [\<lparr>ProposerID = replicate 32 9, dkgRound = 2, dkgBody = [1, 2, 3]\<rparr>,
         \<lparr>ProposerID = replicate 32 9, dkgRound = 2, dkgBody = [1, 2, 3]\<rparr>],
      finals := [\<lparr>ProposerID = replicate 32 9, dkgRound = 2, dkgBody = [4]\<rparr>]\<rparr>"

definition twinState :: State where
  "twinState = localState\<lparr>dkgComplaints := [(2, [(replicate 32 9, [0])])]\<rparr>"

definition finalState :: State where
  "finalState = localState\<lparr>dkgFinals := [(2, [(replicate 32 9, 0)])]\<rparr>"

text \<open>A replicated state of the same two nodes; \<^verbatim>\<open>0.333\<close> as a \<^verbatim>\<open>float32\<close>
  (\<open>1.332 * 2^-2\<close>: biased exponent 125, fraction \<open>round (0.332 * 2^23) = 0x2A7EFA\<close>);
  the state with that ratio requested, and the batch packed from it.\<close>

definition replicaState :: State where
  "replicaState = NewState sampleLib [sampleKeyA, sampleKeyB] 100000000 False"

definition float32_0_333 :: float32 where
  "float32_0_333 = Float32frombits 0x3EAA7EFA"

definition phiPending :: State where
  "phiPending = replicaState\<lparr>pendingChangedConfigs := [(StateChangePhiRatio, PUint32 0x3EAA7EFA)]\<rparr>"

definition phiBatch :: bytes where
  "phiBatch = [0xC7, 0xC6, 0x0C, 0x84, 0x3E, 0xAA, 0x7E, 0xFA]"



text \<open>Two replicated states with the same pending change of \<open>numChains\<close>, each with a
  pending complaint: the two complaints are the two equal records of the heap above.\<close>

definition packer :: State where
  "packer = replicaState
     \<lparr>pendingChangedConfigs := [(StateChangeNumChains, PUint32 7)],
      pendingDKGComplaints := [0]\<rparr>"

definition peer :: State where
  "peer = replicaState
     \<lparr>pendingChangedConfigs := [(StateChangeNumChains, PUint32 7)],
      pendingDKGComplaints := [1]\<rparr>"

text \<open>A heap with a record of every kind, a replicated state with one pending request of
  every kind, and the batch packed from it: the list of six pairs of a type and a payload,
  in RLP.\<close>

definition busyHeap :: heap where
  "busyHeap = twinHeap
     \<lparr>crsRequests := [\<lparr>Round = 1, CRS = replicate 32 7\<rparr>],
      masterPublicKeys := [\<lparr>ProposerID = replicate 32 9, dkgRound = 2, dkgBody = [5]\<rparr>]\<rparr>"

definition pendingAll :: State where
  "pendingAll = replicaState
     \<lparr>pendingChangedConfigs := [(StateChangeNumChains, PUint32 7)],
      pendingNodes := [replicate 33 3],
      pendingDKGComplaints := [0],
      pendingDKGFinals := [0],
      pendingDKGMasterPublicKeys := [0],
      pendingCRS := [0]\<rparr>"

definition pendingAllBatch :: bytes where
  "pendingAllBatch =
     [0xF8, 0xC1] @
     [0xC2, 0x05, 0x07] @
     [0xE3, 0x0F, 0xA1] @ replicate 33 3 @
     [0xE8, 0x02, 0xE6, 0xA0] @ replicate 32 9 @ [0x02, 0x83, 1, 2, 3] @
     [0xE5, 0x04, 0xE3, 0xA0] @ replicate 32 9 @ [0x02, 0x04] @
     [0xE5, 0x03, 0xE3, 0xA0] @ replicate 32 9 @ [0x02, 0x05] @
     [0xE4, 0x01, 0xE2, 0x01, 0xA0] @ replicate 32 7"

text \<open>The batch of one request: the complaint at address 0 of \<open>twinHeap\<close>.\<close>

definition complaintBatch :: bytes where
  "complaintBatch = [0xE9, 0xE8, 0x02, 0xE6, 0xA0] @ replicate 32 9 @ [0x02, 0x83, 1, 2, 3]"

section \<open>Properties\<close>

subsection \<open>Lengths as 64-bit words\<close>

lemma of_nat_len_less: "n < 2 ^ 64 \<Longrightarrow> ((of_nat n :: 64 word) > r) = (unat r < n)"
  by (simp add: word_less_nat_alt unat_of_nat)

lemma of_nat_len_eq: "n < 2 ^ 64 \<Longrightarrow> ((of_nat n :: 64 word) = r) = (unat r = n)"
  by (auto simp: unat_of_nat)

lemma of_nat_len_eq': "n < 2 ^ 64 \<Longrightarrow> (r = (of_nat n :: 64 word)) = (unat r = n)"
  by (auto simp: unat_of_nat)

lemma of_nat_len_le: "n < 2 ^ 64 \<Longrightarrow> ((of_nat n :: 64 word) \<le> r) = (n \<le> unat r)"
  by (simp add: word_le_nat_alt unat_of_nat)

subsection \<open>The CRS chain\<close>

lemma isValid_AddCRS:
  assumes "deref (crsRequests h) a = Some req" and "length (crs s) < 2 ^ 64"
  shows "isValidRequest h s (StateAddCRS, PCRS a) =
     (if unat (Round req) < length (crs s) then
        (if crs s ! unat (Round req) \<noteq> CRS req then Some ErrForkedCRS else Some ErrDuplicatedChange)
      else if unat (Round req) = length (crs s) then None else Some ErrMissingPreviousCRS)"
  using assms by (simp add: isValidRequest_def of_nat_len_less of_nat_len_eq deref_def)

lemma apply_AddCRS:
  assumes "deref (crsRequests h) a = Some req" and "length (crs s) < 2 ^ 64"
    and "unat (Round req) = length (crs s)"
  shows "applyRequest l h s (StateAddCRS, PCRS a) = Inr (s\<lparr>crs := crs s @ [CRS req]\<rparr>)"
  using assms by (simp add: applyRequest_def of_nat_len_eq')

lemma RequestChange_AddCRS_local:
  assumes "local s" and "deref (crsRequests h) a = Some req" and "length (crs s) < 2 ^ 64"
  shows "RequestChange l h s StateAddCRS (PCRS a) =
     (if unat (Round req) < length (crs s) then
        (if crs s ! unat (Round req) \<noteq> CRS req then (Some ErrForkedCRS, s)
         else (Some ErrDuplicatedChange, s))
      else if unat (Round req) > length (crs s) then (Some ErrMissingPreviousCRS, s)
      else (None, s\<lparr>crs := crs s @ [CRS req]\<rparr>))"
  using assms(1) apply_AddCRS[OF assms(2,3), of l]
  by (auto simp: RequestChange_def patchPayload_def isValid_AddCRS[OF assms(2,3)])

lemma State_CRS_appended:
  assumes "length (crs s) + 1 < 2 ^ 64" and "unat r = length (crs s)"
  shows "State_CRS (s\<lparr>crs := crs s @ [c]\<rparr>) r = c"
proof -
  have "\<not> (of_nat (length (crs s @ [c])) :: 64 word) \<le> r"
    using of_nat_len_le[of "length (crs s @ [c])" r] assms by simp
  then show ?thesis using assms(2) by (simp add: State_CRS_def)
qed

text \<open>
  Claim C2. In local mode, an \<^verbatim>\<open>AddCRS\<close> request for \<open>(round, h)\<close> submitted through
  \<^verbatim>\<open>RequestChange\<close> on a state whose CRS chain has length \<open>L\<close>: for \<open>round < L\<close> it
  returns \<^verbatim>\<open>ErrForkedCRS\<close> when the stored CRS of that round differs from \<open>h\<close> and
  \<^verbatim>\<open>ErrDuplicatedChange\<close> when it is equal, in both cases leaving the state as it was; for
  \<open>round > L\<close> it returns \<^verbatim>\<open>ErrMissingPreviousCRS\<close>; for \<open>round = L\<close> it succeeds, the
  chain is one entry longer and \<^verbatim>\<open>CRS(round)\<close> is \<open>h\<close>. \<^verbatim>\<open>ProposeCRS\<close> is such a
  submission, of a request it has just allocated. (A slice holds fewer than \<open>2^64 - 1\<close>
  entries.)
\<close>

theorem AddCRS_local_mode:
  assumes "local s" and "deref (crsRequests h) a = Some req"
    and "length (crs s) + 1 < 2 ^ 64"
  shows "(unat (Round req) < length (crs s) \<and> crs s ! unat (Round req) \<noteq> CRS req \<longrightarrow>
            RequestChange l h s StateAddCRS (PCRS a) = (Some ErrForkedCRS, s)) \<and>
         (unat (Round req) < length (crs s) \<and> crs s ! unat (Round req) = CRS req \<longrightarrow>
            RequestChange l h s StateAddCRS (PCRS a) = (Some ErrDuplicatedChange, s)) \<and>
         (unat (Round req) > length (crs s) \<longrightarrow>
            RequestChange l h s StateAddCRS (PCRS a) = (Some ErrMissingPreviousCRS, s)) \<and>
         (unat (Round req) = length (crs s) \<longrightarrow>
            (\<exists>s'. RequestChange l h s StateAddCRS (PCRS a) = (None, s') \<and>
                  length (crs s') = length (crs s) + 1 \<and>
                  State_CRS s' (Round req) = CRS req)) \<and>
         ProposeCRS l h s round c =
           (case RequestChange l (snd (allocCRS \<lparr>Round = round, CRS = c\<rparr> h)) s StateAddCRS
                   (PCRS (length (crsRequests h))) of
              (err, s') \<Rightarrow> (err, s', snd (allocCRS \<lparr>Round = round, CRS = c\<rparr> h))) \<and>
         deref (crsRequests (snd (allocCRS \<lparr>Round = round, CRS = c\<rparr> h))) (length (crsRequests h)) =
           Some \<lparr>Round = round, CRS = c\<rparr>"
proof -
  have lt: "length (crs s) < 2 ^ 64" using assms(3) by simp
  note rc = RequestChange_AddCRS_local[OF assms(1,2) lt, of l]
  have "unat (Round req) = length (crs s) \<Longrightarrow>
      State_CRS (s\<lparr>crs := crs s @ [CRS req]\<rparr>) (Round req) = CRS req"
    using State_CRS_appended[OF assms(3)] by simp
  then show ?thesis
    by (auto simp: rc ProposeCRS_def allocCRS_def deref_def split: prod.splits)
qed

theorem AddCRS_local_mode_witness:
  "local localState \<and>
   deref (crsRequests crsHeap) 0 = Some \<lparr>Round = 1, CRS = replicate 32 7\<rparr> \<and>
   length (crs localState) + 1 < 2 ^ 64 \<and>
   unat (1 :: uint64) = length (crs localState) \<and>
   (\<exists>s'. RequestChange sampleLib crsHeap localState StateAddCRS (PCRS 0) = (None, s') \<and>
         length (crs s') = length (crs localState) + 1 \<and>
         State_CRS s' 1 = replicate 32 7)"
proof -
  have a: "local localState" by (simp add: localState_def NewState_def)
  have b: "deref (crsRequests crsHeap) 0 = Some \<lparr>Round = 1, CRS = replicate 32 7\<rparr>"
    by (simp add: crsHeap_def emptyHeap_def deref_def)
  have c: "length (crs localState) + 1 < 2 ^ 64" by (simp add: localState_def NewState_def)
  have d: "unat (1 :: uint64) = length (crs localState)" by (simp add: localState_def NewState_def)
  show ?thesis
    using AddCRS_local_mode[OF a b c, of sampleLib] a b c d by simp
qed

subsection \<open>Complaints against a finalized proposer\<close>

lemma isValid_final:
  assumes "deref (complaints h) a = Some c"
    and "map_of (orEmpty (map_of (dkgFinals s) (dkgRound c))) (ProposerID c) = Some f"
  shows "isValidRequest h s (StateAddDKGComplaint, PComplaint a) = Some ErrProposerIsFinal"
  using assms by (simp add: isValidRequest_def)

lemma apply_final_records:
  assumes "applyRequest l h s0 (StateAddDKGFinal, PFinalize fa) = Inr s"
    and "deref (finals h) fa = Some f"
  shows "map_of (orEmpty (map_of (dkgFinals s) (dkgRound f))) (ProposerID f) = Some fa"
  using assms by (auto simp: applyRequest_def Let_def orEmpty_def update_conv')

text \<open>
  Claim C5 (as amended). In a state that holds a finalization of proposer \<open>p\<close> for round
  \<open>r\<close> (\<^verbatim>\<open>dkgFinals[r][p]\<close> exists; in particular in the state \<^verbatim>\<open>applyRequest\<close> leaves
  after an \<^verbatim>\<open>AddDKGFinal\<close> of \<open>(r, p)\<close>), an \<^verbatim>\<open>AddDKGComplaint\<close> for \<open>(r, p)\<close> that is
  submitted through \<^verbatim>\<open>RequestChange\<close> returns \<^verbatim>\<open>ErrProposerIsFinal\<close> and leaves the state,
  its DKG tables and its pending buffers, as it was, in local and in replicated mode. The
  check is the validator's, which only \<^verbatim>\<open>RequestChange\<close> calls.
\<close>

theorem complaint_after_final:
  assumes "deref (complaints h) a = Some c"
  shows "(map_of (orEmpty (map_of (dkgFinals s) (dkgRound c))) (ProposerID c) \<noteq> None \<longrightarrow>
            RequestChange l h s StateAddDKGComplaint (PComplaint a) = (Some ErrProposerIsFinal, s)) \<and>
         (applyRequest l h s0 (StateAddDKGFinal, PFinalize fa) = Inr s \<and>
          deref (finals h) fa = Some f \<and> dkgRound f = dkgRound c \<and> ProposerID f = ProposerID c \<longrightarrow>
            RequestChange l h s StateAddDKGComplaint (PComplaint a) = (Some ErrProposerIsFinal, s))"
proof -
  have 1: "RequestChange l h s StateAddDKGComplaint (PComplaint a) = (Some ErrProposerIsFinal, s)"
    if "map_of (orEmpty (map_of (dkgFinals s) (dkgRound c))) (ProposerID c) = Some x" for x
    using isValid_final[OF assms that] by (simp add: RequestChange_def patchPayload_def)
  have 2: "map_of (orEmpty (map_of (dkgFinals s) (dkgRound c))) (ProposerID c) = Some fa"
    if "applyRequest l h s0 (StateAddDKGFinal, PFinalize fa) = Inr s" "deref (finals h) fa = Some f"
      "dkgRound f = dkgRound c" "ProposerID f = ProposerID c"
    using apply_final_records[OF that(1,2)] that(3,4) by simp
  show ?thesis using 1 2 by blast
qed

theorem complaint_after_final_witness:
  "deref (complaints twinHeap) 0 =
     Some \<lparr>ProposerID = replicate 32 9, dkgRound = 2, dkgBody = [1, 2, 3]\<rparr> \<and>
   applyRequest sampleLib twinHeap localState (StateAddDKGFinal, PFinalize 0) = Inr finalState \<and>
   map_of (orEmpty (map_of (dkgFinals finalState) 2)) (replicate 32 9) = Some 0 \<and>
   RequestChange sampleLib twinHeap finalState StateAddDKGComplaint (PComplaint 0)
     = (Some ErrProposerIsFinal, finalState)"
proof -
  have a: "deref (complaints twinHeap) 0 =
      Some \<lparr>ProposerID = replicate 32 9, dkgRound = 2, dkgBody = [1, 2, 3]\<rparr>"
    by (simp add: twinHeap_def emptyHeap_def deref_def)
  have b: "applyRequest sampleLib twinHeap localState (StateAddDKGFinal, PFinalize 0) = Inr finalState"
    by (simp add: applyRequest_def twinHeap_def emptyHeap_def deref_def finalState_def
        localState_def NewState_def Let_def orEmpty_def)
  have c: "map_of (orEmpty (map_of (dkgFinals finalState) 2)) (replicate 32 9) = Some 0"
    by (simp add: finalState_def orEmpty_def)
  show ?thesis
    using complaint_after_final[OF a, of finalState sampleLib] a b c by simp
qed

text \<open>
  Claim C5 as worded, for any request, fails for a request that arrives in a batch:
  \<^verbatim>\<open>Apply\<close> does not call the validator. The state holds a finalization of the proposer
  for round 2; the batch carries a complaint against that proposer for round 2; \<^verbatim>\<open>Apply\<close>
  returns no error and records the decoded complaint.
\<close>

theorem Apply_records_complaint_after_final:
  "map_of (orEmpty (map_of (dkgFinals finalState) 2)) (replicate 32 9) = Some 0 \<and>
   deref (complaints twinHeap) 0 =
     Some \<lparr>ProposerID = replicate 32 9, dkgRound = 2, dkgBody = [1, 2, 3]\<rparr> \<and>
   EncodeToBytes sampleLib twinHeap [(StateAddDKGComplaint, PComplaint 0)] = Inr complaintBatch \<and>
   (case Apply sampleLib complaintBatch finalState twinHeap of
      (err, s', h') \<Rightarrow>
        err = None \<and> dkgComplaints s' = [(2, [(replicate 32 9, [2])])] \<and>
        deref (complaints h') 2 =
          Some \<lparr>ProposerID = replicate 32 9, dkgRound = 2, dkgBody = [1, 2, 3]\<rparr>)"
  by code_simp

subsection \<open>Duplicated complaints\<close>

text \<open>
  Claim C6. The validator compares the submitted complaint with the recorded ones as
  pointers (\<^verbatim>\<open>tmpComp == comp\<close>): in a local state that holds the complaint at address 0
  for its round and proposer, submitting the same pointer again returns
  \<^verbatim>\<open>ErrDuplicatedChange\<close>, and submitting the record at address 1, which has the same
  content, is accepted and recorded a second time.
\<close>

theorem duplicate_complaint_by_value:
  "deref (complaints twinHeap) 0 = deref (complaints twinHeap) 1 \<and>
   map_of (orEmpty (map_of (dkgComplaints twinState) 2)) (replicate 32 9) = Some [0] \<and>
   RequestChange sampleLib twinHeap twinState StateAddDKGComplaint (PComplaint 0)
     = (Some ErrDuplicatedChange, twinState) \<and>
   RequestChange sampleLib twinHeap twinState StateAddDKGComplaint (PComplaint 1)
     = (None, twinState\<lparr>dkgComplaints := [(2, [(replicate 32 9, [0, 1])])]\<rparr>)"
  by (simp add: twinHeap_def twinState_def localState_def emptyHeap_def deref_def orEmpty_def
      RequestChange_def patchPayload_def isValidRequest_def applyRequest_def NewState_def Let_def)

subsection \<open>PackRequests\<close>

lemma foldl_snoc: "foldl (\<lambda>acc x. acc @ [f x]) init xs = init @ map f xs"
  by (induction xs arbitrary: init) simp_all

lemma packRequests_eq:
  "packRequests s =
     (pendingChangedConfigs s @
      map (\<lambda>b. (StateAddNode, PBytes b)) (pendingNodes s) @
      map (\<lambda>a. (StateAddDKGComplaint, PComplaint a)) (pendingDKGComplaints s) @
      map (\<lambda>a. (StateAddDKGFinal, PFinalize a)) (pendingDKGFinals s) @
      map (\<lambda>a. (StateAddDKGMasterPublicKey, PMasterPublicKey a)) (pendingDKGMasterPublicKeys s) @
      map (\<lambda>a. (StateAddCRS, PCRS a)) (pendingCRS s),
      s\<lparr>pendingChangedConfigs := []\<rparr>)"
proof -
  have "(\<lambda>packed (key, v). packed @ [(key, v)]) = (\<lambda>acc (x :: StateChangeRequest). acc @ [x])"
    by (auto simp: fun_eq_iff)
  then have "foldl (\<lambda>packed (key, v). packed @ [(key, v)]) [] xs = xs"
    for xs :: "StateChangeRequest list"
    using foldl_snoc[of "\<lambda>x. x" "[]" xs] by simp
  then show ?thesis
    by (simp add: packRequests_def Let_def foldl_snoc)
qed

lemma encodeAll_iff:
  "encodeAll l h packed = Inr raws \<longleftrightarrow>
     list_all2 (\<lambda>req raw. fst raw = fst req \<and> encodePayload l h (snd req) = Inr (snd raw)) packed raws"
proof (induction packed arbitrary: raws)
  case Nil
  then show ?case by auto
next
  case (Cons req packed)
  show ?case
  proof (cases raws)
    case Nil
    then show ?thesis by (auto split: sum.splits)
  next
    case (Cons raw rest)
    then show ?thesis using Cons.IH[of rest] by (cases raw) (auto split: sum.splits)
  qed
qed

text \<open>
  Claim C7. For every state, \<^verbatim>\<open>PackRequests\<close> leaves the state with an empty map of
  pending configuration changes and with the pending nodes, complaints, finalizations,
  master public keys and CRS additions it had. The batch lists the configuration changes
  (in the order \<^verbatim>\<open>range\<close> visits them) and then the pending nodes, complaints,
  finalizations, master public keys and CRS additions, each in the order of its slice:
  \<^verbatim>\<open>PackRequests\<close> returns the bytes \<open>b\<close> exactly when \<open>b\<close> is the encoding of a list of
  raw requests that has, position by position, the type of the pending request and the
  encoding of its payload.
\<close>

theorem PackRequests_frame:
  "snd (PackRequests l h s) = s\<lparr>pendingChangedConfigs := []\<rparr> \<and>
   pendingChangedConfigs (snd (PackRequests l h s)) = [] \<and>
   pendingNodes (snd (PackRequests l h s)) = pendingNodes s \<and>
   pendingDKGComplaints (snd (PackRequests l h s)) = pendingDKGComplaints s \<and>
   pendingDKGFinals (snd (PackRequests l h s)) = pendingDKGFinals s \<and>
   pendingDKGMasterPublicKeys (snd (PackRequests l h s)) = pendingDKGMasterPublicKeys s \<and>
   pendingCRS (snd (PackRequests l h s)) = pendingCRS s \<and>
   fst (packRequests s) =
     pendingChangedConfigs s @
     map (\<lambda>b. (StateAddNode, PBytes b)) (pendingNodes s) @
     map (\<lambda>a. (StateAddDKGComplaint, PComplaint a)) (pendingDKGComplaints s) @
     map (\<lambda>a. (StateAddDKGFinal, PFinalize a)) (pendingDKGFinals s) @
     map (\<lambda>a. (StateAddDKGMasterPublicKey, PMasterPublicKey a)) (pendingDKGMasterPublicKeys s) @
     map (\<lambda>a. (StateAddCRS, PCRS a)) (pendingCRS s) \<and>
   fst (PackRequests l h s) = EncodeToBytes l h (fst (packRequests s)) \<and>
   (fst (PackRequests l h s) = Inr b \<longleftrightarrow>
     (\<exists>raws.
        list_all2 (\<lambda>req raw. fst raw = fst req \<and> encodePayload l h (snd req) = Inr (snd raw))
          (pendingChangedConfigs s @
           map (\<lambda>b. (StateAddNode, PBytes b)) (pendingNodes s) @
           map (\<lambda>a. (StateAddDKGComplaint, PComplaint a)) (pendingDKGComplaints s) @
           map (\<lambda>a. (StateAddDKGFinal, PFinalize a)) (pendingDKGFinals s) @
           map (\<lambda>a. (StateAddDKGMasterPublicKey, PMasterPublicKey a)) (pendingDKGMasterPublicKeys s) @
           map (\<lambda>a. (StateAddCRS, PCRS a)) (pendingCRS s))
          raws \<and>
        EncodeRequests l raws = Inr b))"
proof -
  have "EncodeToBytes l h packed = Inr b \<longleftrightarrow>
      (\<exists>raws. list_all2 (\<lambda>req raw. fst raw = fst req \<and> encodePayload l h (snd req) = Inr (snd raw))
         packed raws \<and> EncodeRequests l raws = Inr b)" for packed
    unfolding encodeAll_iff[symmetric] by (auto simp: EncodeToBytes_def split: sum.splits)
  then show ?thesis by (simp add: PackRequests_def packRequests_eq)
qed

text \<open>One pending request of every kind: the bytes returned, the types they list, and
  what the bytes decode to.\<close>

theorem PackRequests_frame_witness:
  "PackRequests sampleLib busyHeap pendingAll
     = (Inr pendingAllBatch, pendingAll\<lparr>pendingChangedConfigs := []\<rparr>) \<and>
   (\<exists>raws. map fst raws =
        [StateChangeNumChains, StateAddNode, StateAddDKGComplaint, StateAddDKGFinal,
         StateAddDKGMasterPublicKey, StateAddCRS] \<and>
      EncodeRequests sampleLib raws = Inr pendingAllBatch) \<and>
   DecodeRequests sampleLib pendingAllBatch =
     Inr [(StateChangeNumChains, [0x07]),
          (StateAddNode, 0xA1 # replicate 33 3),
          (StateAddDKGComplaint, [0xE6, 0xA0] @ replicate 32 9 @ [0x02, 0x83, 1, 2, 3]),
          (StateAddDKGFinal, [0xE3, 0xA0] @ replicate 32 9 @ [0x02, 0x04]),
          (StateAddDKGMasterPublicKey, [0xE3, 0xA0] @ replicate 32 9 @ [0x02, 0x05]),
          (StateAddCRS, [0xE2, 0x01, 0xA0] @ replicate 32 7)]"
proof -
  have p: "PackRequests sampleLib busyHeap pendingAll
     = (Inr pendingAllBatch, pendingAll\<lparr>pendingChangedConfigs := []\<rparr>)" by code_simp
  have d: "DecodeRequests sampleLib pendingAllBatch =
     Inr [(StateChangeNumChains, [0x07]),
          (StateAddNode, 0xA1 # replicate 33 3),
          (StateAddDKGComplaint, [0xE6, 0xA0] @ replicate 32 9 @ [0x02, 0x83, 1, 2, 3]),
          (StateAddDKGFinal, [0xE3, 0xA0] @ replicate 32 9 @ [0x02, 0x04]),
          (StateAddDKGMasterPublicKey, [0xE3, 0xA0] @ replicate 32 9 @ [0x02, 0x05]),
          (StateAddCRS, [0xE2, 0x01, 0xA0] @ replicate 32 7)]" by code_simp
  from PackRequests_frame[of sampleLib busyHeap pendingAll pendingAllBatch] p
  obtain raws where
    r: "list_all2 (\<lambda>req raw. fst raw = fst req \<and> encodePayload sampleLib busyHeap (snd req) = Inr (snd raw))
          (pendingChangedConfigs pendingAll @
           map (\<lambda>b. (StateAddNode, PBytes b)) (pendingNodes pendingAll) @
           map (\<lambda>a. (StateAddDKGComplaint, PComplaint a)) (pendingDKGComplaints pendingAll) @
           map (\<lambda>a. (StateAddDKGFinal, PFinalize a)) (pendingDKGFinals pendingAll) @
           map (\<lambda>a. (StateAddDKGMasterPublicKey, PMasterPublicKey a)) (pendingDKGMasterPublicKeys pendingAll) @
           map (\<lambda>a. (StateAddCRS, PCRS a)) (pendingCRS pendingAll))
          raws"
    and e: "EncodeRequests sampleLib raws = Inr pendingAllBatch" by auto
  have "map fst raws = map fst
          (pendingChangedConfigs pendingAll @
           map (\<lambda>b. (StateAddNode, PBytes b)) (pendingNodes pendingAll) @
           map (\<lambda>a. (StateAddDKGComplaint, PComplaint a)) (pendingDKGComplaints pendingAll) @
           map (\<lambda>a. (StateAddDKGFinal, PFinalize a)) (pendingDKGFinals pendingAll) @
           map (\<lambda>a. (StateAddDKGMasterPublicKey, PMasterPublicKey a)) (pendingDKGMasterPublicKeys pendingAll) @
           map (\<lambda>a. (StateAddCRS, PCRS a)) (pendingCRS pendingAll))"
    using r by (induction rule: list_all2_induct) auto
  then have t: "map fst raws =
        [StateChangeNumChains, StateAddNode, StateAddDKGComplaint, StateAddDKGFinal,
         StateAddDKGMasterPublicKey, StateAddCRS]"
    by (simp add: pendingAll_def)
  have ex: "\<exists>raws. map fst raws =
        [StateChangeNumChains, StateAddNode, StateAddDKGComplaint, StateAddDKGFinal,
         StateAddDKGMasterPublicKey, StateAddCRS] \<and>
      EncodeRequests sampleLib raws = Inr pendingAllBatch"
    by (intro exI[of _ raws] conjI) (rule t, rule e)
  show ?thesis by (intro conjI) (rule p, rule ex, rule d)
qed

subsection \<open>NewState\<close>

lemma update_key_set: "fst ` set (AList.update key v al) = insert key (fst ` set al)"
  using dom_update[of key v al] by (simp add: dom_map_of_conv_image_fst)

lemma nodeMap_keys:
  "fst ` set (foldl (\<lambda>m key. AList.update (f key) key m) m0 keys) = fst ` set m0 \<union> f ` set keys"
  by (induction keys arbitrary: m0) (simp_all add: update_key_set)

lemma nodeMap_distinct:
  "distinct (map fst m0) \<Longrightarrow> distinct (map fst (foldl (\<lambda>m key. AList.update (f key) key m) m0 keys))"
  by (induction keys arbitrary: m0) (simp_all add: distinct_update)

lemma length_nodeMap:
  "length (foldl (\<lambda>m key. AList.update (f key) key m) [] keys) = card (f ` set keys)"
proof -
  let ?m = "foldl (\<lambda>m key. AList.update (f key) key m) [] keys"
  have "distinct (map fst ?m)" by (rule nodeMap_distinct) simp
  then have "length (map fst ?m) = card (set (map fst ?m))" by (simp only: distinct_card)
  then show ?thesis using nodeMap_keys[of f "[]" keys] by simp
qed

lemma State_CRS_genesis: "State_CRS (NewState l keys lambda isLocal) 0 = Keccak256Hash l genesisSeed"
  by (simp add: State_CRS_def NewState_def Let_def)

text \<open>
  Claim C3, as the code has it. The state \<^verbatim>\<open>NewState(nodePubKeys, lambda, local)\<close> has
  \<open>lambdaBA = lambda\<close>, \<open>lambdaDKG = lambda * 10\<close>, \<open>roundInterval = lambda * 10000\<close>,
  \<open>maxBlockInterval = lambda * 8\<close> (products of \<^verbatim>\<open>int64\<close>), \<open>minBlockInterval\<close> one
  millisecond, \<open>phiRatio = 0.667\<close>, \<open>k = 0\<close>, and a CRS chain of one entry,
  \<^verbatim>\<open>CRS(0) = Keccak256("__ DEXON")\<close>. \<open>numChains\<close>, \<open>notarySetSize\<close> and \<open>dkgSetSize\<close> are
  the size of the node map, that is the number of distinct node identifiers of the keys
  (as a \<^verbatim>\<open>uint32\<close>); it is the number of keys when their identifiers are distinct.
\<close>

theorem NewState_fields:
  "lambdaBA (NewState l keys lambda isLocal) = lambda \<and>
   lambdaDKG (NewState l keys lambda isLocal) = lambda * 10 \<and>
   roundInterval (NewState l keys lambda isLocal) = lambda * 10000 \<and>
   maxBlockInterval (NewState l keys lambda isLocal) = lambda * 8 \<and>
   minBlockInterval (NewState l keys lambda isLocal) = 1000000 \<and>
   phiRatio (NewState l keys lambda isLocal) = float32_0_667 \<and>
   k (NewState l keys lambda isLocal) = 0 \<and>
   numChains (NewState l keys lambda isLocal) = of_nat (card (NewNodeID l ` set keys)) \<and>
   notarySetSize (NewState l keys lambda isLocal) = of_nat (card (NewNodeID l ` set keys)) \<and>
   dkgSetSize (NewState l keys lambda isLocal) = of_nat (card (NewNodeID l ` set keys)) \<and>
   (distinct (map (NewNodeID l) keys) \<longrightarrow>
      numChains (NewState l keys lambda isLocal) = of_nat (length keys) \<and>
      notarySetSize (NewState l keys lambda isLocal) = of_nat (length keys) \<and>
      dkgSetSize (NewState l keys lambda isLocal) = of_nat (length keys)) \<and>
   local (NewState l keys lambda isLocal) = isLocal \<and>
   length (crs (NewState l keys lambda isLocal)) = 1 \<and>
   State_CRS (NewState l keys lambda isLocal) 0 = Keccak256Hash l genesisSeed"
proof -
  have "distinct (map (NewNodeID l) keys) \<Longrightarrow> card (NewNodeID l ` set keys) = length keys"
    using distinct_card[of "map (NewNodeID l) keys"] by simp
  then show ?thesis
    by (simp add: State_CRS_genesis) (simp add: NewState_def Let_def length_nodeMap Millisecond_def)
qed

theorem NewState_fields_witness:
  "distinct (map (NewNodeID sampleLib) [sampleKeyA, sampleKeyB]) \<and>
   numChains (NewState sampleLib [sampleKeyA, sampleKeyB] 100000000 True) = 2 \<and>
   lambdaDKG (NewState sampleLib [sampleKeyA, sampleKeyB] 100000000 True) = 1000000000"
proof -
  have d: "distinct (map (NewNodeID sampleLib) [sampleKeyA, sampleKeyB])"
    by (simp add: sampleLib_def sampleKeyA_def sampleKeyB_def sampleHash_def)
  show ?thesis
    using d NewState_fields[of sampleLib "[sampleKeyA, sampleKeyB]" 100000000 True] by simp
qed

text \<open>The claim as the spec states it fails when a key is listed twice: two keys, one
  node, \<open>numChains = 1\<close>.\<close>

theorem NewState_duplicate_keys:
  "numChains (NewState sampleLib [sampleKeyA, sampleKeyA] 100000000 True) = 1 \<and>
   numChains (NewState sampleLib [sampleKeyA, sampleKeyA] 100000000 True)
     \<noteq> of_nat (length [sampleKeyA, sampleKeyA])"
  by (simp add: NewState_def Let_def)

subsection \<open>Decoding a batch\<close>

lemma small_type_cases:
  fixes t :: "8 word"
  assumes "t \<le> 15"
  shows "t = 0 \<or> t = 1 \<or> t = 2 \<or> t = 3 \<or> t = 4 \<or> t = 5 \<or> t = 6 \<or> t = 7 \<or> t = 8 \<or>
         t = 9 \<or> t = 10 \<or> t = 11 \<or> t = 12 \<or> t = 13 \<or> t = 14 \<or> t = 15"
proof -
  have "unat t \<le> 15" using assms by (simp add: word_le_nat_alt)
  then have "unat t = 0 \<or> unat t = 1 \<or> unat t = 2 \<or> unat t = 3 \<or> unat t = 4 \<or> unat t = 5 \<or>
      unat t = 6 \<or> unat t = 7 \<or> unat t = 8 \<or> unat t = 9 \<or> unat t = 10 \<or> unat t = 11 \<or>
      unat t = 12 \<or> unat t = 13 \<or> unat t = 14 \<or> unat t = 15" by arith
  then show ?thesis by (simp add: word_unat_eq_iff)
qed

lemma unknown_type_iff:
  fixes t :: "8 word"
  shows "(t = 0 \<or> 15 < t) \<longleftrightarrow>
         (t \<noteq> 1 \<and> t \<noteq> 2 \<and> t \<noteq> 3 \<and> t \<noteq> 4 \<and> t \<noteq> 5 \<and> t \<noteq> 6 \<and> t \<noteq> 7 \<and> t \<noteq> 8 \<and>
          t \<noteq> 9 \<and> t \<noteq> 10 \<and> t \<noteq> 11 \<and> t \<noteq> 12 \<and> t \<noteq> 13 \<and> t \<noteq> 14 \<and> t \<noteq> 15)"
proof (cases "t \<le> 15")
  case True
  from small_type_cases[OF this] show ?thesis by (elim disjE) simp_all
next
  case False
  then have "15 < t" by simp
  then show ?thesis by auto
qed

lemma type_cases [case_names AddCRS AddDKGComplaint AddDKGMasterPublicKey AddDKGFinal
    NumChains LambdaBA LambdaDKG RoundInterval MinBlockInterval MaxBlockInterval K PhiRatio
    NotarySetSize DKGSetSize AddNode Unknown]:
  fixes t :: StateChangeType
  obtains "t = StateAddCRS" | "t = StateAddDKGComplaint" | "t = StateAddDKGMasterPublicKey"
  | "t = StateAddDKGFinal" | "t = StateChangeNumChains" | "t = StateChangeLambdaBA"
  | "t = StateChangeLambdaDKG" | "t = StateChangeRoundInterval" | "t = StateChangeMinBlockInterval"
  | "t = StateChangeMaxBlockInterval" | "t = StateChangeK" | "t = StateChangePhiRatio"
  | "t = StateChangeNotarySetSize" | "t = StateChangeDKGSetSize" | "t = StateAddNode"
  | "t = 0 \<or> 15 < t"
  using unknown_type_iff[of t] by blast

lemma applyRequest_Unknown:
  "t = 0 \<or> 15 < t \<Longrightarrow> applyRequest l h s (t, p) = Inl ErrKiddingMe"
  unfolding unknown_type_iff by (simp add: applyRequest_def)

lemma applyRequest_not_unknown: "applyRequest l h s req \<noteq> Inl ErrUnknownStateChangeType"
proof (cases req)
  case (Pair t p)
  show ?thesis unfolding Pair
    by (cases t rule: type_cases)
      (simp_all add: applyRequest_Unknown, simp_all add: applyRequest_def Let_def split: option.splits sum.splits)
qed

lemma decodeWith_not_unknown: "decodeWith dec wrap raw \<noteq> Inl ErrUnknownStateChangeType"
  by (simp add: decodeWith_def split: sum.splits)

lemma decodePayload_unknown_iff:
  "decodePayload l r = Inl ErrUnknownStateChangeType \<longleftrightarrow> (fst r = 0 \<or> 15 < fst r)"
  unfolding unknown_type_iff
  by (simp add: decodePayload_def decodeWith_not_unknown)

lemma unpackAll_fail:
  assumes "decodePayload l r = Inl e" and "\<forall>x\<in>set pre. \<not> isl (decodePayload l x)"
  shows "unpackAll l (pre @ r # post) h = Inl e"
  using assms(2)
proof (induction pre arbitrary: h)
  case Nil
  then show ?case using assms(1) by (simp add: unpackPayload_def)
next
  case (Cons x pre)
  then obtain v where "decodePayload l x = Inr v" by (cases "decodePayload l x") auto
  then show ?case using Cons by (simp add: unpackPayload_def split: prod.splits)
qed

lemma unpackAll_ok:
  assumes "\<forall>x\<in>set raws. \<not> isl (decodePayload l x)"
  shows "\<exists>reqs h'. unpackAll l raws h = Inr (reqs, h')"
  using assms
proof (induction raws arbitrary: h)
  case Nil
  then show ?case by simp
next
  case (Cons x raws)
  then obtain v where v: "decodePayload l x = Inr v" by (cases "decodePayload l x") auto
  obtain p h1 where a: "allocDecoded v h = (p, h1)" by (cases "allocDecoded v h")
  from Cons obtain reqs h' where "unpackAll l raws h1 = Inr (reqs, h')" by fastforce
  then show ?case using v a by (simp add: unpackPayload_def)
qed

lemma first_failure:
  assumes "\<exists>r\<in>set raws. isl (decodePayload l r)"
  shows "\<exists>pre r post e. raws = pre @ r # post \<and> (\<forall>x\<in>set pre. \<not> isl (decodePayload l x)) \<and>
           decodePayload l r = Inl e"
proof -
  from split_list_first_prop[OF assms] obtain pre r post where
    "raws = pre @ r # post" "isl (decodePayload l r)" "\<forall>x\<in>set pre. \<not> isl (decodePayload l x)"
    by blast
  moreover then obtain e where "decodePayload l r = Inl e" by (cases "decodePayload l r") auto
  ultimately show ?thesis by blast
qed

lemma unpackAll_error:
  assumes "unpackAll l raws h = Inl e"
  shows "\<exists>pre r post. raws = pre @ r # post \<and> (\<forall>x\<in>set pre. \<not> isl (decodePayload l x)) \<and>
           decodePayload l r = Inl e"
proof (cases "\<exists>r\<in>set raws. isl (decodePayload l r)")
  case True
  from first_failure[OF this] obtain pre r post e' where
    f: "raws = pre @ r # post" "\<forall>x\<in>set pre. \<not> isl (decodePayload l x)" "decodePayload l r = Inl e'"
    by blast
  from unpackAll_fail[OF f(3,2), of post h] assms f(1) have "e' = e" by simp
  then show ?thesis using f by blast
next
  case False
  then have "\<forall>x\<in>set raws. \<not> isl (decodePayload l x)" by blast
  from unpackAll_ok[OF this, of h] assms show ?thesis by auto
qed

lemma applyAll_not_unknown: "fst (applyAll l h s reqs) \<noteq> Some ErrUnknownStateChangeType"
proof (induction reqs arbitrary: s)
  case Nil
  then show ?case by simp
next
  case (Cons req reqs)
  then show ?case
    using applyRequest_not_unknown[of l h s req] by (cases "applyRequest l h s req") auto
qed

text \<open>
  Claim C10. When \<^verbatim>\<open>Apply\<close> cannot decode the batch, or cannot decode the payload of one
  of its elements (an unknown type included), it returns an error and the state is the one
  it was given: every payload is decoded before the first request is applied.
\<close>

theorem Apply_decode_failure:
  assumes "DecodeRequests l bs = Inl msg \<or>
           (\<exists>raws. DecodeRequests l bs = Inr raws \<and> (\<exists>r\<in>set raws. isl (decodePayload l r)))"
  shows "\<exists>e. Apply l bs s h = (Some e, s, h)"
  using assms
proof
  assume "DecodeRequests l bs = Inl msg"
  then show ?thesis by (simp add: Apply_def)
next
  assume "\<exists>raws. DecodeRequests l bs = Inr raws \<and> (\<exists>r\<in>set raws. isl (decodePayload l r))"
  then obtain raws where d: "DecodeRequests l bs = Inr raws"
    and f: "\<exists>r\<in>set raws. isl (decodePayload l r)" by blast
  from first_failure[OF f] obtain pre r post e where
    "raws = pre @ r # post" "\<forall>x\<in>set pre. \<not> isl (decodePayload l x)" "decodePayload l r = Inl e"
    by blast
  then have "unpackAll l raws h = Inl e" using unpackAll_fail by blast
  then show ?thesis using d by (simp add: Apply_def)
qed

theorem Apply_decode_failure_witness:
  "DecodeRequests sampleLib [0xC3, 0xC2, 0x10, 0x80] = Inr [(16, [0x80])] \<and>
   isl (decodePayload sampleLib (16, [0x80])) \<and>
   (\<exists>e. Apply sampleLib [0xC3, 0xC2, 0x10, 0x80] localState emptyHeap = (Some e, localState, emptyHeap))"
proof -
  have a: "DecodeRequests sampleLib [0xC3, 0xC2, 0x10, 0x80] = Inr [(16, [0x80])]"
    by (simp add: sampleLib_def) code_simp
  have b: "isl (decodePayload sampleLib (16, [0x80]))"
    by (simp add: decodePayload_def)
  show ?thesis
    using Apply_decode_failure[of sampleLib "[0xC3, 0xC2, 0x10, 0x80]" "[]" localState emptyHeap] a b
    by simp
qed

text \<open>
  Claim C8, as the code has it. \<^verbatim>\<open>Apply\<close> returns \<^verbatim>\<open>ErrUnknownStateChangeType\<close> exactly
  when the batch decodes to a sequence in which the first element whose payload does not
  decode has the type 0 (\<^verbatim>\<open>StateChangeNothing\<close>) or a type above 15: \<^verbatim>\<open>unpackPayload\<close>
  knows the types 1 to 15 and takes every other one for unknown, and an element is only
  looked at when the ones before it decoded. For the types 1 to 15 the payload is decoded
  by the codec of the table: a CRS request, a DKG record, \<^verbatim>\<open>uint32\<close>, \<^verbatim>\<open>uint64\<close> or a
  byte string.
\<close>

theorem unknown_type_reported:
  "(fst (Apply l bs s h) = Some ErrUnknownStateChangeType \<longleftrightarrow>
      (\<exists>pre r post. DecodeRequests l bs = Inr (pre @ r # post) \<and>
          (\<forall>x\<in>set pre. \<not> isl (decodePayload l x)) \<and> (fst r = 0 \<or> 15 < fst r))) \<and>
   (decodePayload l (t, raw) = Inl ErrUnknownStateChangeType \<longleftrightarrow> (t = 0 \<or> 15 < t)) \<and>
   decodePayload l (StateAddCRS, raw) = decodeWith (DecodeCRS l) DCRS raw \<and>
   decodePayload l (StateAddDKGComplaint, raw) = decodeWith (DecodeComplaint l) DComplaint raw \<and>
   decodePayload l (StateAddDKGMasterPublicKey, raw)
     = decodeWith (DecodeMasterPublicKey l) DMasterPublicKey raw \<and>
   decodePayload l (StateAddDKGFinal, raw) = decodeWith (DecodeFinalize l) DFinalize raw \<and>
   decodePayload l (StateChangeNumChains, raw) = decodeWith (DecodeUint32 l) DUint32 raw \<and>
   decodePayload l (StateChangeLambdaBA, raw) = decodeWith (DecodeUint64 l) DUint64 raw \<and>
   decodePayload l (StateChangeLambdaDKG, raw) = decodeWith (DecodeUint64 l) DUint64 raw \<and>
   decodePayload l (StateChangeRoundInterval, raw) = decodeWith (DecodeUint64 l) DUint64 raw \<and>
   decodePayload l (StateChangeMinBlockInterval, raw) = decodeWith (DecodeUint64 l) DUint64 raw \<and>
   decodePayload l (StateChangeMaxBlockInterval, raw) = decodeWith (DecodeUint64 l) DUint64 raw \<and>
   decodePayload l (StateChangeK, raw) = decodeWith (DecodeUint64 l) DUint64 raw \<and>
   decodePayload l (StateChangePhiRatio, raw) = decodeWith (DecodeUint32 l) DUint32 raw \<and>
   decodePayload l (StateChangeNotarySetSize, raw) = decodeWith (DecodeUint32 l) DUint32 raw \<and>
   decodePayload l (StateChangeDKGSetSize, raw) = decodeWith (DecodeUint32 l) DUint32 raw \<and>
   decodePayload l (StateAddNode, raw) = decodeWith (DecodeBytes l) DBytes raw"
proof -
  have main: "fst (Apply l bs s h) = Some ErrUnknownStateChangeType \<longleftrightarrow>
      (\<exists>pre r post. DecodeRequests l bs = Inr (pre @ r # post) \<and>
          (\<forall>x\<in>set pre. \<not> isl (decodePayload l x)) \<and> (fst r = 0 \<or> 15 < fst r))"
    (is "?L \<longleftrightarrow> ?R")
  proof
    assume L: ?L
    show ?R
    proof (cases "DecodeRequests l bs")
      case (Inl msg)
      then show ?thesis using L by (simp add: Apply_def)
    next
      case (Inr raws)
      show ?thesis
      proof (cases "unpackAll l raws h")
        case (Inl e)
        then have "e = ErrUnknownStateChangeType" using L Inr by (simp add: Apply_def)
        with unpackAll_error[OF Inl] Inr show ?thesis
          by (auto simp: decodePayload_unknown_iff)
      next
        case (Inr b)
        obtain reqs h' where b: "b = (reqs, h')" by (cases b)
        have "fst (Apply l bs s h) = fst (applyAll l h' s reqs)"
          using \<open>DecodeRequests l bs = Inr raws\<close> Inr b
          by (simp add: Apply_def split: prod.splits)
        then show ?thesis using L applyAll_not_unknown[of l h' s reqs] by simp
      qed
    qed
  next
    assume ?R
    then obtain pre r post where d: "DecodeRequests l bs = Inr (pre @ r # post)"
      and p: "\<forall>x\<in>set pre. \<not> isl (decodePayload l x)" and u: "fst r = 0 \<or> 15 < fst r" by blast
    from u have "decodePayload l r = Inl ErrUnknownStateChangeType"
      by (simp add: decodePayload_unknown_iff)
    from unpackAll_fail[OF this p, of post h] d show ?L by (simp add: Apply_def)
  qed
  show ?thesis
    by (simp only: main decodePayload_unknown_iff fst_conv simp_thms) (simp add: decodePayload_def)
qed

theorem unknown_type_reported_witness:
  "DecodeRequests sampleLib [0xC3, 0xC2, 0x10, 0x80] = Inr ([] @ (16, [0x80]) # []) \<and>
   15 < (16 :: StateChangeType) \<and>
   fst (Apply sampleLib [0xC3, 0xC2, 0x10, 0x80] localState emptyHeap) = Some ErrUnknownStateChangeType"
proof -
  have a: "DecodeRequests sampleLib [0xC3, 0xC2, 0x10, 0x80] = Inr ([] @ (16, [0x80]) # [])"
    by (simp add: sampleLib_def) code_simp
  have b: "15 < (16 :: StateChangeType)" by simp
  have "\<exists>pre r post. DecodeRequests sampleLib [0xC3, 0xC2, 0x10, 0x80] = Inr (pre @ r # post) \<and>
          (\<forall>x\<in>set pre. \<not> isl (decodePayload sampleLib x)) \<and> (fst r = 0 \<or> 15 < fst r)"
    using a b by (intro exI[of _ "[]"] exI[of _ "(16, [0x80])"]) simp
  then show ?thesis
    using unknown_type_reported[of sampleLib "[0xC3, 0xC2, 0x10, 0x80]" localState emptyHeap] a b
    by blast
qed

text \<open>The claim as the spec states it fails on a batch of one element of type 0, which
  is inside the enumeration and is reported as unknown.\<close>

theorem unknown_type_nothing:
  "DecodeRequests sampleLib [0xC3, 0xC2, 0x80, 0x80] = Inr [(StateChangeNothing, [0x80])] \<and>
   fst (Apply sampleLib [0xC3, 0xC2, 0x80, 0x80] localState emptyHeap) = Some ErrUnknownStateChangeType \<and>
   \<not> (15 < StateChangeNothing)"
proof -
  have a: "DecodeRequests sampleLib [0xC3, 0xC2, 0x80, 0x80] = Inr [(StateChangeNothing, [0x80])]"
    by (simp add: sampleLib_def) code_simp
  show ?thesis
    by (simp add: a Apply_def unpackPayload_def decodePayload_def)
qed

subsection \<open>Configuration changes through the wire\<close>

lemma applyRequest_frame:
  assumes "applyRequest l h s (t, p) = Inr s'"
  shows "(t \<noteq> StateChangePhiRatio \<longrightarrow> phiRatio s' = phiRatio s) \<and>
         (t \<noteq> StateChangeK \<longrightarrow> k s' = k s)"
  using assms
  by (cases t rule: type_cases)
    (simp_all add: applyRequest_Unknown, auto simp: applyRequest_def Let_def split: option.splits sum.splits if_splits)

lemma applyAll_frame:
  "(\<forall>req\<in>set reqs. fst req \<noteq> StateChangePhiRatio) \<longrightarrow> phiRatio (snd (applyAll l h s reqs)) = phiRatio s"
  "(\<forall>req\<in>set reqs. fst req \<noteq> StateChangeK) \<longrightarrow> k (snd (applyAll l h s reqs)) = k s"
proof (induction reqs arbitrary: s)
  case Nil
  {
    case 1 show ?case by simp
  next
    case 2 show ?case by simp
  }
next
  case (Cons req reqs)
  {
    case 1
    show ?case
    proof (cases "applyRequest l h s req")
      case (Inl e) then show ?thesis by simp
    next
      case (Inr s')
      then show ?thesis using applyRequest_frame[of l h s "fst req" "snd req" s'] Cons(1)[of s'] by auto
    qed
  next
    case 2
    show ?case
    proof (cases "applyRequest l h s req")
      case (Inl e) then show ?thesis by simp
    next
      case (Inr s')
      then show ?thesis using applyRequest_frame[of l h s "fst req" "snd req" s'] Cons(2)[of s'] by auto
    qed
  }
qed







lemma list_all2_in_right: "list_all2 P xs ys \<Longrightarrow> y \<in> set ys \<Longrightarrow> \<exists>x\<in>set xs. P x y"
  by (induction xs ys rule: list_all2_induct) auto









subsection \<open>Maps\<close>

lemma map_of_in_keys: "map_of m key = Some v \<Longrightarrow> key \<in> fst ` set m"
  by (metis domI dom_map_of_conv_image_fst)

lemma mapsAgree_iff:
  assumes "distinct (map fst m)" and "distinct (map fst other)"
  shows "mapsAgree same m other \<longleftrightarrow> (\<forall>key. rel_option same (map_of m key) (map_of other key))"
proof
  assume a: "mapsAgree same m other"
  then have len: "length m = length other"
    and all: "\<forall>(key, v)\<in>set m. case map_of other key of None \<Rightarrow> False | Some ov \<Rightarrow> same v ov"
    by (simp_all add: mapsAgree_def list_all_iff)
  have sub: "fst ` set m \<subseteq> fst ` set other"
  proof
    fix key assume "key \<in> fst ` set m"
    then obtain v where "(key, v) \<in> set m" by auto
    with all have "map_of other key \<noteq> None" by (auto split: option.splits)
    then show "key \<in> fst ` set other" by (auto dest: map_of_in_keys)
  qed
  have "card (fst ` set m) = length m" "card (fst ` set other) = length other"
    using assms distinct_card[of "map fst m"] distinct_card[of "map fst other"] by simp_all
  then have eq: "fst ` set m = fst ` set other"
    using sub len by (metis List.finite_set card_subset_eq finite_imageI)
  show "\<forall>key. rel_option same (map_of m key) (map_of other key)"
  proof
    fix key
    show "rel_option same (map_of m key) (map_of other key)"
    proof (cases "map_of m key")
      case None
      then have "key \<notin> fst ` set m" by (simp add: map_of_eq_None_iff)
      then have "map_of other key = None" using eq by (simp add: map_of_eq_None_iff)
      then show ?thesis using None by simp
    next
      case (Some v)
      then have "(key, v) \<in> set m" by (rule map_of_SomeD)
      with all Some show ?thesis by (auto split: option.splits)
    qed
  qed
next
  assume r: "\<forall>key. rel_option same (map_of m key) (map_of other key)"
  have "fst ` set m = fst ` set other"
  proof -
    have "dom (map_of m) = dom (map_of other)"
    proof (rule set_eqI)
      fix key
      show "key \<in> dom (map_of m) \<longleftrightarrow> key \<in> dom (map_of other)"
        using r[rule_format, of key]
        by (cases "map_of m key"; cases "map_of other key") auto
    qed
    then show ?thesis by (simp add: dom_map_of_conv_image_fst)
  qed
  then have "length m = length other"
    using assms distinct_card[of "map fst m"] distinct_card[of "map fst other"] by simp
  moreover have "\<forall>(key, v)\<in>set m. case map_of other key of None \<Rightarrow> False | Some ov \<Rightarrow> same v ov"
  proof (clarify)
    fix key v assume "(key, v) \<in> set m"
    then have "map_of m key = Some v" using assms(1) by simp
    with r[rule_format, of key] show "case map_of other key of None \<Rightarrow> False | Some ov \<Rightarrow> same v ov"
      by (cases "map_of other key") auto
  qed
  ultimately show "mapsAgree same m other" by (simp add: mapsAgree_def list_all_iff)
qed

lemma mapsAgree_mono:
  assumes "mapsAgree same m other" and "\<And>v w. same v w \<Longrightarrow> same' v w"
  shows "mapsAgree same' m other"
  using assms by (auto simp: mapsAgree_def list_all_iff split: option.splits)

lemma mapsAgree_Nil: "mapsAgree same [] []"
  by (simp add: mapsAgree_def)

lemma mapsAgree_Nil_left: "mapsAgree same [] other \<longleftrightarrow> other = []"
  by (auto simp: mapsAgree_def)

lemma mapsAgree_Nil_right: "mapsAgree same m [] \<longleftrightarrow> m = []"
  by (auto simp: mapsAgree_def)

lemma mapsAgree_update:
  assumes "distinct (map fst m)" and "distinct (map fst other)"
    and "mapsAgree same m other" and "same v w"
  shows "mapsAgree same (AList.update key v m) (AList.update key w other)"
proof -
  have "\<forall>x. rel_option same (map_of (AList.update key v m) x) (map_of (AList.update key w other) x)"
    using assms(3,4) by (simp add: mapsAgree_iff[OF assms(1,2)] update_conv')
  then show ?thesis
    using assms(1,2) by (simp add: mapsAgree_iff distinct_update)
qed

lemma mapsAgree_lookup:
  assumes "distinct (map fst m)" and "distinct (map fst other)" and "mapsAgree same m other"
  shows "rel_option same (map_of m key) (map_of other key)"
  using assms by (simp add: mapsAgree_iff)





subsection \<open>Heaps\<close>

lemma deref_Some_iff: "deref cells a = Some v \<longleftrightarrow> a < length cells \<and> cells ! a = v"
  by (auto simp: deref_def)

lemma deref_prefix: "prefix xs ys \<Longrightarrow> deref xs a = Some v \<Longrightarrow> deref ys a = Some v"
  by (auto simp: prefix_def deref_def nth_append split: if_splits)

lemma deref_append: "deref xs a = Some v \<Longrightarrow> deref (xs @ zs) a = Some v"
  by (auto simp: deref_def nth_append split: if_splits)

lemma deref_fresh: "deref (xs @ [v]) (length xs) = Some v"
  by (simp add: deref_def)

lemma heapExtends_refl: "heapExtends h h"
  by (simp add: heapExtends_def)

lemma heapExtends_trans: "heapExtends h1 h2 \<Longrightarrow> heapExtends h2 h3 \<Longrightarrow> heapExtends h1 h3"
  by (auto simp: heapExtends_def)

lemma sameRecord_iff: "sameRecord cells a b \<longleftrightarrow> (\<exists>v. deref cells a = Some v \<and> deref cells b = Some v)"
  by (auto simp: sameRecord_def split: option.splits)

lemma sameRecord_prefix: "prefix xs ys \<Longrightarrow> sameRecord xs a b \<Longrightarrow> sameRecord ys a b"
  unfolding sameRecord_iff by (blast dest: deref_prefix)

lemma ptrDeepEqual_prefix: "prefix xs ys \<Longrightarrow> ptrDeepEqual xs a b \<Longrightarrow> ptrDeepEqual ys a b"
  by (auto simp: ptrDeepEqual_def dest: sameRecord_prefix)


subsection \<open>Loops that allocate\<close>



subsection \<open>Copies of records\<close>








subsection \<open>Clone and Equal\<close>




lemma tableOK_keys: "tableOK ok tab \<Longrightarrow> tableKeysDistinct tab"
  by (auto simp: tableOK_def tableKeysDistinct_def list_all_iff)














lemma Equal_None_iff: "Equal h s other = None \<longleftrightarrow> configEqual s other \<and> restEqual h s other"
  by (simp add: Equal_def restEqual_def)

lemma float32_eq_refl: "\<not> isNaN f \<Longrightarrow> float32_eq f f"
  by (simp add: float32_eq_def)




















subsection \<open>Apply on two states that Equal accepts\<close>

lemma as_iff:
  "asCRS p = Some a \<longleftrightarrow> p = PCRS a"
  "asComplaint p = Some a \<longleftrightarrow> p = PComplaint a"
  "asMasterPublicKey p = Some a \<longleftrightarrow> p = PMasterPublicKey a"
  "asFinalize p = Some a \<longleftrightarrow> p = PFinalize a"
  by (cases p; simp)+

lemma holdsValue_cases:
  assumes "holdsValue h p v"
  obtains (CRS) a r where "p = PCRS a" "v = DCRS r" "deref (crsRequests h) a = Some r"
  | (Complaint) a c where "p = PComplaint a" "v = DComplaint c" "deref (complaints h) a = Some c"
  | (MasterPublicKey) a m where "p = PMasterPublicKey a" "v = DMasterPublicKey m"
      "deref (masterPublicKeys h) a = Some m"
  | (Finalize) a f where "p = PFinalize a" "v = DFinalize f" "deref (finals h) a = Some f"
  | (Uint32) u where "p = PUint32 u" "v = DUint32 u"
  | (Uint64) u where "p = PUint64 u" "v = DUint64 u"
  | (Bytes) bs where "p = PBytes bs" "v = DBytes bs"
  using assms by (cases v) (auto simp: holdsValue_def as_iff split: option.splits)

lemma holdsValue_extends: "heapExtends h h' \<Longrightarrow> holdsValue h p v \<Longrightarrow> holdsValue h' p v"
  by (cases v) (auto simp: holdsValue_def heapExtends_def split: option.splits dest: deref_prefix)

lemma sameRequest_extends: "heapExtends h h' \<Longrightarrow> sameRequest h r r' \<Longrightarrow> sameRequest h' r r'"
  by (auto simp: sameRequest_def dest: holdsValue_extends)

subsection \<open>Tables\<close>

lemma tableKeysDistinct_lookup:
  "tableKeysDistinct tab \<Longrightarrow> distinct (map fst (orEmpty (map_of tab r)))"
  by (cases "map_of tab r") (auto simp: orEmpty_def tableKeysDistinct_def dest: map_of_SomeD)

lemma table_update_keys:
  assumes "tableKeysDistinct tab"
  shows "tableKeysDistinct (AList.update r (AList.update p v (orEmpty (map_of tab r))) tab)"
proof -
  let ?inner = "AList.update p v (orEmpty (map_of tab r))"
  have i: "distinct (map fst ?inner)"
    using tableKeysDistinct_lookup[OF assms] by (simp add: distinct_update)
  have "distinct (map fst x)" if "(y, x) \<in> set (AList.update r ?inner tab)" for x y
  proof -
    have "distinct (map fst (AList.update r ?inner tab))"
      using assms by (simp add: tableKeysDistinct_def distinct_update)
    then have "map_of (AList.update r ?inner tab) y = Some x"
      using that by (rule map_of_is_SomeI)
    then have "(y, x) = (r, ?inner) \<or> (y, x) \<in> set tab"
      by (auto simp: update_conv' split: if_splits dest: map_of_SomeD)
    then show ?thesis using i assms by (auto simp: tableKeysDistinct_def)
  qed
  then show ?thesis using assms by (auto simp: tableKeysDistinct_def distinct_update)
qed

lemma table_lookup_agree:
  assumes "tableKeysDistinct tab" and "tableKeysDistinct tab'"
    and "mapsAgree (mapsAgree same) tab tab'"
  shows "mapsAgree same (orEmpty (map_of tab r)) (orEmpty (map_of tab' r))"
proof -
  have "rel_option (mapsAgree same) (map_of tab r) (map_of tab' r)"
    using assms by (auto simp: tableKeysDistinct_def intro: mapsAgree_lookup)
  then show ?thesis
    by (cases "map_of tab r"; cases "map_of tab' r") (simp_all add: orEmpty_def mapsAgree_Nil)
qed

lemma table_update_agree:
  assumes "tableKeysDistinct tab" and "tableKeysDistinct tab'"
    and "mapsAgree (mapsAgree same) tab tab'"
    and "\<And>old old'. rel_option same old old' \<Longrightarrow> same (g old) (g' old')"
  shows "mapsAgree (mapsAgree same)
     (AList.update r (AList.update p (g (map_of (orEmpty (map_of tab r)) p)) (orEmpty (map_of tab r))) tab)
     (AList.update r (AList.update p (g' (map_of (orEmpty (map_of tab' r)) p)) (orEmpty (map_of tab' r))) tab')"
proof -
  let ?fr = "orEmpty (map_of tab r)" and ?fr' = "orEmpty (map_of tab' r)"
  note d = tableKeysDistinct_lookup[OF assms(1), of r] tableKeysDistinct_lookup[OF assms(2), of r]
  note a = table_lookup_agree[OF assms(1,2,3), of r]
  have "rel_option same (map_of ?fr p) (map_of ?fr' p)"
    using d a by (rule mapsAgree_lookup)
  then have "same (g (map_of ?fr p)) (g' (map_of ?fr' p))" by (rule assms(4))
  then have i: "mapsAgree same (AList.update p (g (map_of ?fr p)) ?fr) (AList.update p (g' (map_of ?fr' p)) ?fr')"
    by (rule mapsAgree_update[OF d a])
  have o: "distinct (map fst tab)" "distinct (map fst tab')"
    using assms(1,2) by (simp_all add: tableKeysDistinct_def)
  show ?thesis by (rule mapsAgree_update[OF o assms(3) i])
qed

lemma holdsValue_views:
  assumes "holdsValue h p v" and "holdsValue h q v"
  shows "asUint32 p = asUint32 q" and "asUint64 p = asUint64 q" and "asBytes p = asBytes q"
    and "rel_option (sameRecord (crsRequests h)) (asCRS p) (asCRS q)"
    and "rel_option (sameRecord (complaints h)) (asComplaint p) (asComplaint q)"
    and "rel_option (sameRecord (masterPublicKeys h)) (asMasterPublicKey p) (asMasterPublicKey q)"
    and "rel_option (sameRecord (finals h)) (asFinalize p) (asFinalize q)"
  by (rule holdsValue_cases[OF assms(1)]; rule holdsValue_cases[OF assms(2)]; simp add: sameRecord_iff)+

lemma applyRequest_at:
  "applyRequest l h s (StateAddNode, p) =
     (case asBytes p of
        None \<Rightarrow> Inl Panic
      | Some bs \<Rightarrow>
         (case NewPublicKeyFromByteSlice l bs of
            Inl msg \<Rightarrow> Inl (External msg)
          | Inr pubKey \<Rightarrow> Inr (s\<lparr>nodes := AList.update (NewNodeID l pubKey) pubKey (nodes s)\<rparr>)))"
  "applyRequest l h s (StateAddCRS, p) =
     (case asCRS p of
        None \<Rightarrow> Inl Panic
      | Some a \<Rightarrow>
         (case deref (crsRequests h) a of
            None \<Rightarrow> Inl Panic
          | Some crsRequest \<Rightarrow>
             if Round crsRequest \<noteq> of_nat (length (crs s)) then Inl ErrDuplicatedChange
             else Inr (s\<lparr>crs := crs s @ [CRS crsRequest]\<rparr>)))"
  "applyRequest l h s (StateAddDKGComplaint, p) =
     (case asComplaint p of
        None \<Rightarrow> Inl Panic
      | Some compl \<Rightarrow>
         (case deref (complaints h) compl of
            None \<Rightarrow> Inl Panic
          | Some c \<Rightarrow>
             Inr (s\<lparr>dkgComplaints :=
                  AList.update (dkgRound c)
                    (AList.update (ProposerID c)
                       (orEmpty (map_of (orEmpty (map_of (dkgComplaints s) (dkgRound c))) (ProposerID c)) @ [compl])
                       (orEmpty (map_of (dkgComplaints s) (dkgRound c))))
                    (dkgComplaints s)\<rparr>)))"
  "applyRequest l h s (StateAddDKGMasterPublicKey, p) =
     (case asMasterPublicKey p of
        None \<Rightarrow> Inl Panic
      | Some mKey \<Rightarrow>
         (case deref (masterPublicKeys h) mKey of
            None \<Rightarrow> Inl Panic
          | Some m \<Rightarrow>
             Inr (s\<lparr>dkgMasterPublicKeys :=
                  AList.update (dkgRound m)
                    (AList.update (ProposerID m) mKey (orEmpty (map_of (dkgMasterPublicKeys s) (dkgRound m))))
                    (dkgMasterPublicKeys s)\<rparr>)))"
  "applyRequest l h s (StateAddDKGFinal, p) =
     (case asFinalize p of
        None \<Rightarrow> Inl Panic
      | Some final \<Rightarrow>
         (case deref (finals h) final of
            None \<Rightarrow> Inl Panic
          | Some f \<Rightarrow>
             Inr (s\<lparr>dkgFinals :=
                  AList.update (dkgRound f)
                    (AList.update (ProposerID f) final (orEmpty (map_of (dkgFinals s) (dkgRound f))))
                    (dkgFinals s)\<rparr>)))"
  by (simp_all add: applyRequest_def Let_def split: option.splits)

lemma applyRequest_config_at:
  "applyRequest l h s (StateChangeNumChains, p) =
     (case asUint32 p of None \<Rightarrow> Inl Panic | Some u \<Rightarrow> Inr (s\<lparr>numChains := u\<rparr>))"
  "applyRequest l h s (StateChangeLambdaBA, p) =
     (case asUint64 p of None \<Rightarrow> Inl Panic | Some u \<Rightarrow> Inr (s\<lparr>lambdaBA := Duration_of_uint64 u\<rparr>))"
  "applyRequest l h s (StateChangeLambdaDKG, p) =
     (case asUint64 p of None \<Rightarrow> Inl Panic | Some u \<Rightarrow> Inr (s\<lparr>lambdaDKG := Duration_of_uint64 u\<rparr>))"
  "applyRequest l h s (StateChangeRoundInterval, p) =
     (case asUint64 p of None \<Rightarrow> Inl Panic | Some u \<Rightarrow> Inr (s\<lparr>roundInterval := Duration_of_uint64 u\<rparr>))"
  "applyRequest l h s (StateChangeMinBlockInterval, p) =
     (case asUint64 p of None \<Rightarrow> Inl Panic | Some u \<Rightarrow> Inr (s\<lparr>minBlockInterval := Duration_of_uint64 u\<rparr>))"
  "applyRequest l h s (StateChangeMaxBlockInterval, p) =
     (case asUint64 p of None \<Rightarrow> Inl Panic | Some u \<Rightarrow> Inr (s\<lparr>maxBlockInterval := Duration_of_uint64 u\<rparr>))"
  "applyRequest l h s (StateChangeK, p) =
     (case asUint64 p of None \<Rightarrow> Inl Panic | Some u \<Rightarrow> Inr (s\<lparr>k := int_of_uint64 u\<rparr>))"
  "applyRequest l h s (StateChangePhiRatio, p) =
     (case asUint32 p of None \<Rightarrow> Inl Panic | Some u \<Rightarrow> Inr (s\<lparr>phiRatio := Float32frombits u\<rparr>))"
  "applyRequest l h s (StateChangeNotarySetSize, p) =
     (case asUint32 p of None \<Rightarrow> Inl Panic | Some u \<Rightarrow> Inr (s\<lparr>notarySetSize := u\<rparr>))"
  "applyRequest l h s (StateChangeDKGSetSize, p) =
     (case asUint32 p of None \<Rightarrow> Inl Panic | Some u \<Rightarrow> Inr (s\<lparr>dkgSetSize := u\<rparr>))"
  by (simp_all add: applyRequest_def)

lemma stepsAgree_simps:
  "stepsAgree h (Inl e) r' \<longleftrightarrow> r' = Inl e"
  "stepsAgree h (Inr x) (Inr y) \<longleftrightarrow> appliedAgree h x y \<and> keysDistinct x \<and> keysDistinct y"
  "\<not> stepsAgree h (Inr x) (Inl e)"
  by (simp_all add: stepsAgree_def)

lemma rel_option_cases:
  assumes "rel_option R x y"
  obtains "x = None" "y = None" | a b where "x = Some a" "y = Some b" "R a b"
  using assms by (cases x; cases y) auto

lemma complaints_appended:
  "sameRecord cells a b \<Longrightarrow> rel_option (list_all2 (sameRecord cells)) old old' \<Longrightarrow>
     list_all2 (sameRecord cells) (orEmpty old @ [a]) (orEmpty old' @ [b])"
  by (cases old; cases old') (simp_all add: orEmpty_def list_all2_appendI)

lemma applyRequest_agree:
  assumes ag: "appliedAgree h x y" and kx: "keysDistinct x" and ky: "keysDistinct y"
    and sr: "sameRequest h (t, p) (t', q)"
  shows "stepsAgree h (applyRequest l h x (t, p)) (applyRequest l h y (t', q))"
proof -
  from sr obtain v where t': "t' = t" and hp: "holdsValue h p v" and hq: "holdsValue h q v"
    by (auto simp: sameRequest_def)
  note vw = holdsValue_views[OF hp hq]
  have "stepsAgree h (applyRequest l h x (t, p)) (applyRequest l h y (t, q))"
  proof (cases t rule: type_cases)
    case AddCRS
    from vw(4) show ?thesis
    proof (cases rule: rel_option_cases)
      case 1
      then show ?thesis by (simp add: AddCRS applyRequest_at stepsAgree_simps)
    next
      case (2 a b)
      then obtain r where "deref (crsRequests h) a = Some r" "deref (crsRequests h) b = Some r"
        by (auto simp: sameRecord_iff)
      then show ?thesis using 2 ag kx ky
        by (simp add: AddCRS applyRequest_at stepsAgree_simps appliedAgree_def keysDistinct_def)
    qed
  next
    case AddDKGComplaint
    from vw(5) show ?thesis
    proof (cases rule: rel_option_cases)
      case 1
      then show ?thesis by (simp add: AddDKGComplaint applyRequest_at stepsAgree_simps)
    next
      case (2 a b)
      then obtain c where c: "deref (complaints h) a = Some c" "deref (complaints h) b = Some c"
        by (auto simp: sameRecord_iff)
      have d: "tableKeysDistinct (dkgComplaints x)" "tableKeysDistinct (dkgComplaints y)"
        using kx ky by (simp_all add: keysDistinct_def)
      have m: "mapsAgree (mapsAgree (list_all2 (sameRecord (complaints h))))
                 (dkgComplaints x) (dkgComplaints y)"
        using ag by (simp add: appliedAgree_def)
      note u = table_update_agree[OF d m, of "\<lambda>old. orEmpty old @ [a]" "\<lambda>old. orEmpty old @ [b]",
          OF complaints_appended[OF 2(3)]]
      show ?thesis using 2 c ag kx ky u table_update_keys[OF d(1)] table_update_keys[OF d(2)]
        by (simp add: AddDKGComplaint applyRequest_at stepsAgree_simps appliedAgree_def keysDistinct_def)
    qed
  next
    case AddDKGMasterPublicKey
    from vw(6) show ?thesis
    proof (cases rule: rel_option_cases)
      case 1
      then show ?thesis by (simp add: AddDKGMasterPublicKey applyRequest_at stepsAgree_simps)
    next
      case (2 a b)
      then obtain c where c: "deref (masterPublicKeys h) a = Some c" "deref (masterPublicKeys h) b = Some c"
        by (auto simp: sameRecord_iff)
      have d: "tableKeysDistinct (dkgMasterPublicKeys x)" "tableKeysDistinct (dkgMasterPublicKeys y)"
        using kx ky by (simp_all add: keysDistinct_def)
      have m: "mapsAgree (mapsAgree (sameRecord (masterPublicKeys h)))
                 (dkgMasterPublicKeys x) (dkgMasterPublicKeys y)"
        using ag by (simp add: appliedAgree_def)
      note u = table_update_agree[OF d m, of "\<lambda>old. a" "\<lambda>old. b", OF 2(3)]
      show ?thesis using 2 c ag kx ky u table_update_keys[OF d(1)] table_update_keys[OF d(2)]
        by (simp add: AddDKGMasterPublicKey applyRequest_at stepsAgree_simps appliedAgree_def keysDistinct_def)
    qed
  next
    case AddDKGFinal
    from vw(7) show ?thesis
    proof (cases rule: rel_option_cases)
      case 1
      then show ?thesis by (simp add: AddDKGFinal applyRequest_at stepsAgree_simps)
    next
      case (2 a b)
      then obtain c where c: "deref (finals h) a = Some c" "deref (finals h) b = Some c"
        by (auto simp: sameRecord_iff)
      have d: "tableKeysDistinct (dkgFinals x)" "tableKeysDistinct (dkgFinals y)"
        using kx ky by (simp_all add: keysDistinct_def)
      have m: "mapsAgree (mapsAgree (sameRecord (finals h))) (dkgFinals x) (dkgFinals y)"
        using ag by (simp add: appliedAgree_def)
      note u = table_update_agree[OF d m, of "\<lambda>old. a" "\<lambda>old. b", OF 2(3)]
      show ?thesis using 2 c ag kx ky u table_update_keys[OF d(1)] table_update_keys[OF d(2)]
        by (simp add: AddDKGFinal applyRequest_at stepsAgree_simps appliedAgree_def keysDistinct_def)
    qed
  next
    case AddNode
    have d: "distinct (map fst (nodes x))" "distinct (map fst (nodes y))"
      using kx ky by (simp_all add: keysDistinct_def)
    have m: "mapsAgree (\<lambda>key otherKey. Bytes key = Bytes otherKey) (nodes x) (nodes y)"
      using ag by (simp add: appliedAgree_def)
    have u: "mapsAgree (\<lambda>key otherKey. Bytes key = Bytes otherKey)
               (AList.update n key (nodes x)) (AList.update n key (nodes y))" for n key
      by (rule mapsAgree_update[OF d m]) simp
    show ?thesis using vw(3) ag kx ky u
      by (simp add: AddNode applyRequest_at stepsAgree_simps appliedAgree_def keysDistinct_def
          distinct_update split: option.splits sum.splits)
  next
    case Unknown
    then show ?thesis by (simp add: applyRequest_Unknown stepsAgree_simps)
  qed (use vw(1,2) ag kx ky in \<open>simp add: applyRequest_config_at stepsAgree_simps appliedAgree_def
        keysDistinct_def split: option.splits\<close>)+
  then show ?thesis by (simp add: t')
qed

lemma applyAll_agree:
  assumes "list_all2 (sameRequest h) reqs reqs'"
    and "appliedAgree h x y" and "keysDistinct x" and "keysDistinct y"
  shows "fst (applyAll l h x reqs) = fst (applyAll l h y reqs') \<and>
         appliedAgree h (snd (applyAll l h x reqs)) (snd (applyAll l h y reqs'))"
  using assms
proof (induction arbitrary: x y rule: list_all2_induct)
  case Nil
  then show ?case by simp
next
  case (Cons r reqs r' reqs')
  obtain t p t' q where r: "r = (t, p)" "r' = (t', q)" by (cases r; cases r') auto
  from applyRequest_agree[OF Cons.prems, of t p t' q l] Cons.hyps(1)
  have st: "stepsAgree h (applyRequest l h x r) (applyRequest l h y r')" by (simp add: r)
  show ?case
  proof (cases "applyRequest l h x r")
    case (Inl e)
    then show ?thesis using st Cons.prems(1) by (simp add: stepsAgree_simps)
  next
    case (Inr x')
    then obtain y' where y': "applyRequest l h y r' = Inr y'"
      using st by (cases "applyRequest l h y r'") (simp_all add: stepsAgree_simps)
    from st have "appliedAgree h x' y'" "keysDistinct x'" "keysDistinct y'"
      by (simp_all add: Inr y' stepsAgree_simps)
    from Cons.IH[OF this] show ?thesis by (simp add: Inr y')
  qed
qed

lemma applyRequest_extends:
  assumes "heapExtends h h'" and "holdsValue h p v"
  shows "applyRequest l h' s (t, p) = applyRequest l h s (t, p)"
  using assms(2)
proof (cases rule: holdsValue_cases)
  case (CRS a r)
  then have "deref (crsRequests h') a = Some r"
    using assms(1) by (auto simp: heapExtends_def dest: deref_prefix)
  then show ?thesis using CRS by (simp add: applyRequest_def)
next
  case (Complaint a c)
  then have "deref (complaints h') a = Some c"
    using assms(1) by (auto simp: heapExtends_def dest: deref_prefix)
  then show ?thesis using Complaint by (simp add: applyRequest_def)
next
  case (MasterPublicKey a m)
  then have "deref (masterPublicKeys h') a = Some m"
    using assms(1) by (auto simp: heapExtends_def dest: deref_prefix)
  then show ?thesis using MasterPublicKey by (simp add: applyRequest_def)
next
  case (Finalize a f)
  then have "deref (finals h') a = Some f"
    using assms(1) by (auto simp: heapExtends_def dest: deref_prefix)
  then show ?thesis using Finalize by (simp add: applyRequest_def)
qed (simp_all add: applyRequest_def)

lemma applyAll_extends:
  assumes "heapExtends h h'" and "\<forall>req\<in>set reqs. \<exists>v. holdsValue h (snd req) v"
  shows "applyAll l h' s reqs = applyAll l h s reqs"
  using assms(2)
proof (induction reqs arbitrary: s)
  case Nil
  then show ?case by simp
next
  case (Cons req reqs)
  then obtain v where "holdsValue h (snd req) v" by auto
  from applyRequest_extends[OF assms(1) this, of l s "fst req"]
  have "applyRequest l h' s req = applyRequest l h s req" by simp
  then show ?case using Cons by (simp split: sum.splits)
qed

text \<open>\<^verbatim>\<open>Apply\<close> leaves the mode and the buffers of pending requests as they are.\<close>

lemma applyRequest_pending:
  assumes "applyRequest l h s (t, p) = Inr s'"
  shows "local s' = local s \<and> pendingChangedConfigs s' = pendingChangedConfigs s \<and>
         pendingNodes s' = pendingNodes s \<and> pendingDKGComplaints s' = pendingDKGComplaints s \<and>
         pendingDKGFinals s' = pendingDKGFinals s \<and>
         pendingDKGMasterPublicKeys s' = pendingDKGMasterPublicKeys s \<and> pendingCRS s' = pendingCRS s"
  using assms
  by (cases t rule: type_cases)
    (simp_all add: applyRequest_Unknown, auto simp: applyRequest_def Let_def split: option.splits sum.splits if_splits)

lemma applyAll_pending:
  "local (snd (applyAll l h s reqs)) = local s \<and>
   pendingChangedConfigs (snd (applyAll l h s reqs)) = pendingChangedConfigs s \<and>
   pendingNodes (snd (applyAll l h s reqs)) = pendingNodes s \<and>
   pendingDKGComplaints (snd (applyAll l h s reqs)) = pendingDKGComplaints s \<and>
   pendingDKGFinals (snd (applyAll l h s reqs)) = pendingDKGFinals s \<and>
   pendingDKGMasterPublicKeys (snd (applyAll l h s reqs)) = pendingDKGMasterPublicKeys s \<and>
   pendingCRS (snd (applyAll l h s reqs)) = pendingCRS s"
proof (induction reqs arbitrary: s)
  case Nil
  then show ?case by simp
next
  case (Cons req reqs)
  show ?case
  proof (cases "applyRequest l h s req")
    case (Inl e)
    then show ?thesis by simp
  next
    case (Inr s')
    from applyRequest_pending[of l h s "fst req" "snd req" s'] Inr Cons[of s']
    show ?thesis by simp
  qed
qed

subsection \<open>What the first loop of Apply returns\<close>

lemma allocDecoded_holds:
  assumes "allocDecoded v h = (p, h')"
  shows "heapExtends h h' \<and> holdsValue h' p v"
  using assms
  by (cases v)
    (auto simp: allocDecoded_def allocCRS_def allocComplaint_def allocMasterPublicKey_def
      allocFinalize_def heapExtends_def holdsValue_def deref_fresh)

lemma unpackAll_holds:
  assumes "unpackAll l raws h = Inr (reqs, h')"
  shows "heapExtends h h' \<and>
         list_all2 (\<lambda>raw req. fst req = fst raw \<and>
            (\<exists>v. decodePayload l raw = Inr v \<and> holdsValue h' (snd req) v)) raws reqs"
  using assms
proof (induction raws arbitrary: h reqs)
  case Nil
  then show ?case by (simp add: heapExtends_refl)
next
  case (Cons r rs)
  from Cons.prems obtain v p h1 reqs1 where
    d: "decodePayload l r = Inr v" and a: "allocDecoded v h = (p, h1)"
    and u: "unpackAll l rs h1 = Inr (reqs1, h')" and reqs: "reqs = (fst r, p) # reqs1"
    by (auto simp: unpackPayload_def split: sum.splits prod.splits)
  from allocDecoded_holds[OF a] have e1: "heapExtends h h1" and h1: "holdsValue h1 p v" by simp_all
  from Cons.IH[OF u] have e2: "heapExtends h1 h'"
    and rest: "list_all2 (\<lambda>raw req. fst req = fst raw \<and>
            (\<exists>v. decodePayload l raw = Inr v \<and> holdsValue h' (snd req) v)) rs reqs1" by simp_all
  show ?case
    using heapExtends_trans[OF e1 e2] holdsValue_extends[OF e2 h1] d rest by (simp add: reqs)
qed

lemma list_all2_in_left: "list_all2 P xs ys \<Longrightarrow> x \<in> set xs \<Longrightarrow> \<exists>y\<in>set ys. P x y"
  by (induction xs ys rule: list_all2_induct) auto

lemma list_all2_common_left:
  "list_all2 P xs ys \<Longrightarrow> list_all2 Q xs zs \<Longrightarrow> list_all2 (\<lambda>y z. \<exists>x. P x y \<and> Q x z) ys zs"
proof (induction arbitrary: zs rule: list_all2_induct)
  case Nil
  then show ?case by simp
next
  case (Cons x xs y ys)
  then show ?case by (cases zs) auto
qed

text \<open>The same encoded requests unpacked twice, the second time on the heap that the
  first left.\<close>

lemma unpackAll_twice:
  assumes "unpackAll l raws h = Inr (reqs, h1)"
  shows "\<exists>reqs' h2. unpackAll l raws h1 = Inr (reqs', h2) \<and> heapExtends h1 h2 \<and>
           list_all2 (sameRequest h2) reqs reqs' \<and> (\<forall>req\<in>set reqs. \<exists>v. holdsValue h1 (snd req) v)"
proof -
  note first = unpackAll_holds[OF assms]
  have "\<forall>x\<in>set raws. \<not> isl (decodePayload l x)"
    using first by (auto dest!: list_all2_in_left)
  from unpackAll_ok[OF this, of h1] obtain reqs' h2 where
    u: "unpackAll l raws h1 = Inr (reqs', h2)" by blast
  note second = unpackAll_holds[OF u]
  have f: "list_all2 (\<lambda>raw req. fst req = fst raw \<and>
            (\<exists>v. decodePayload l raw = Inr v \<and> holdsValue h2 (snd req) v)) raws reqs"
    using first second
    by (auto elim!: list_all2_mono dest: holdsValue_extends)
  have "list_all2 (sameRequest h2) reqs reqs'"
    using list_all2_common_left[OF f conjunct2[OF second]]
    by (rule list_all2_mono) (auto simp: sameRequest_def)
  moreover have "\<forall>req\<in>set reqs. \<exists>v. holdsValue h1 (snd req) v"
    using first by (auto dest: list_all2_in_right)
  ultimately show ?thesis using u second by blast
qed

lemma unpackAll_fails_anywhere:
  assumes "unpackAll l raws h = Inl e"
  shows "unpackAll l raws h' = Inl e"
proof -
  from unpackAll_error[OF assms] obtain pre r post where
    "raws = pre @ r # post" "\<forall>x\<in>set pre. \<not> isl (decodePayload l x)" "decodePayload l r = Inl e"
    by blast
  then show ?thesis using unpackAll_fail[of l r e pre post h'] by simp
qed

lemma appliedAgree_extends:
  assumes "heapExtends h h'" and "appliedAgree h x y"
  shows "appliedAgree h' x y"
proof -
  have c: "mapsAgree (mapsAgree (list_all2 (sameRecord (complaints h')))) (dkgComplaints x) (dkgComplaints y)"
    if "mapsAgree (mapsAgree (list_all2 (sameRecord (complaints h)))) (dkgComplaints x) (dkgComplaints y)"
    using that assms(1)
    by (auto simp: heapExtends_def elim!: mapsAgree_mono list_all2_mono dest: sameRecord_prefix)
  have m: "mapsAgree (mapsAgree (sameRecord (masterPublicKeys h'))) (dkgMasterPublicKeys x) (dkgMasterPublicKeys y)"
    if "mapsAgree (mapsAgree (sameRecord (masterPublicKeys h))) (dkgMasterPublicKeys x) (dkgMasterPublicKeys y)"
    using that assms(1)
    by (auto simp: heapExtends_def elim!: mapsAgree_mono dest: sameRecord_prefix)
  have f: "mapsAgree (mapsAgree (sameRecord (finals h'))) (dkgFinals x) (dkgFinals y)"
    if "mapsAgree (mapsAgree (sameRecord (finals h))) (dkgFinals x) (dkgFinals y)"
    using that assms(1)
    by (auto simp: heapExtends_def elim!: mapsAgree_mono dest: sameRecord_prefix)
  show ?thesis using assms(2) c m f by (simp add: appliedAgree_def)
qed

lemma Apply_agree:
  assumes ag: "appliedAgree h x y" and kx: "keysDistinct x" and ky: "keysDistinct y"
    and ax: "Apply l bs x h = (ex, x2, h1)" and ay: "Apply l bs y h1 = (ey, y2, h2)"
  shows "ey = ex \<and> heapExtends h h2 \<and> appliedAgree h2 x2 y2"
proof (cases "DecodeRequests l bs")
  case (Inl msg)
  then show ?thesis using ax ay ag by (auto simp: Apply_def heapExtends_refl)
next
  case (Inr raws)
  show ?thesis
  proof (cases "unpackAll l raws h")
    case (Inl e)
    from unpackAll_fails_anywhere[OF this, of h] ax Inl Inr have "h1 = h" "x2 = x" "ex = Some e"
      by (simp_all add: Apply_def)
    then show ?thesis using ay ag Inl Inr by (simp add: Apply_def heapExtends_refl)
  next
    case u: (Inr unpacked)
    obtain reqs hx where unpacked: "unpacked = (reqs, hx)" by (cases unpacked)
    from ax Inr u unpacked have h1: "hx = h1" and rx: "applyAll l h1 x reqs = (ex, x2)"
      by (auto simp: Apply_def split: prod.splits)
    have ux: "unpackAll l raws h = Inr (reqs, h1)" using u unpacked h1 by simp
    from unpackAll_twice[OF ux] obtain reqs' hy where
      uy: "unpackAll l raws h1 = Inr (reqs', hy)" and e2: "heapExtends h1 hy"
      and sr: "list_all2 (sameRequest hy) reqs reqs'"
      and hv: "\<forall>req\<in>set reqs. \<exists>v. holdsValue h1 (snd req) v" by blast
    from ay Inr uy have h2: "hy = h2" and ry: "applyAll l h2 y reqs' = (ey, y2)"
      by (auto simp: Apply_def split: prod.splits)
    have e1: "heapExtends h h1" using unpackAll_holds[OF ux] by simp
    have e: "heapExtends h h2" using heapExtends_trans[OF e1 e2] h2 by simp
    have rx': "applyAll l h2 x reqs = (ex, x2)"
      using applyAll_extends[OF e2 hv, of l x] rx h2 by simp
    from applyAll_agree[OF sr[unfolded h2] appliedAgree_extends[OF e ag] kx ky, of l] rx' ry
    show ?thesis using e by simp
  qed
qed

lemma Apply_pending:
  assumes "Apply l bs s h = (e, s', h')"
  shows "local s' = local s \<and> pendingChangedConfigs s' = pendingChangedConfigs s \<and>
         pendingNodes s' = pendingNodes s \<and> pendingDKGComplaints s' = pendingDKGComplaints s \<and>
         pendingDKGFinals s' = pendingDKGFinals s \<and>
         pendingDKGMasterPublicKeys s' = pendingDKGMasterPublicKeys s \<and> pendingCRS s' = pendingCRS s"
proof -
  have "s' = s \<or> (\<exists>hh reqs. s' = snd (applyAll l hh s reqs))"
  proof (cases "DecodeRequests l bs")
    case (Inl msg)
    then show ?thesis using assms by (simp add: Apply_def)
  next
    case (Inr raws)
    show ?thesis
    proof (cases "unpackAll l raws h")
      case (Inl e)
      then show ?thesis using assms Inr by (simp add: Apply_def)
    next
      case u: (Inr unpacked)
      obtain reqs hx where "unpacked = (reqs, hx)" by (cases unpacked)
      then have "s' = snd (applyAll l hx s reqs)"
        using assms Inr u by (auto simp: Apply_def split: prod.splits)
      then show ?thesis by blast
    qed
  qed
  then show ?thesis using applyAll_pending by auto
qed

lemma PackRequests_state: "PackRequests l h s = (r, s') \<Longrightarrow> s' = s\<lparr>pendingChangedConfigs := []\<rparr>"
  by (auto simp: PackRequests_def packRequests_eq)

lemma validState_keys: "validState h s \<Longrightarrow> keysDistinct s"
  by (auto simp: validState_def keysDistinct_def intro: tableOK_keys)

text \<open>
  Claim C1 (as amended). Let \<open>b\<close> be a state that \<open>Equal\<close> accepts against the producer
  \<open>a\<close> when \<open>a\<close> packs its pending requests, both well-formed. \<^verbatim>\<open>PackRequests\<close> does not apply
  what it packs, so the producer has to \<^verbatim>\<open>Apply\<close> the batch as well: when the producer, as
  \<^verbatim>\<open>PackRequests\<close> left it, and \<open>b\<close> both apply the batch, they return the same error, and
  \<open>Equal\<close> accepts the two resulting states once the pending configuration changes of
  \<open>b\<close>, which only the producer has packed, are put aside; it accepts them as they are when
  the producer had no pending configuration change. The \<open>phiRatio\<close> that results must
  be a number, since \<open>Equal\<close> rejects a NaN against itself.
\<close>

theorem Apply_on_Equal_states:
  assumes va: "validState h a" and vb: "validState h b" and eq: "Equal h a b = None"
    and pack: "PackRequests l h a = (Inr bs, a')"
    and ax: "Apply l bs a' h = (ea, a2, h1)" and ay: "Apply l bs b h1 = (eb, b2, h2)"
    and nan: "\<not> isNaN (phiRatio a2)"
  shows "eb = ea \<and> Equal h2 a2 (b2\<lparr>pendingChangedConfigs := []\<rparr>) = None \<and>
         (pendingChangedConfigs a = [] \<longrightarrow> Equal h2 a2 b2 = None)"
proof -
  from eq have ce: "configEqual a b" and re: "restEqual h a b" by (simp_all add: Equal_None_iff)
  have a': "a' = a\<lparr>pendingChangedConfigs := []\<rparr>" using pack by (rule PackRequests_state)
  have ag: "appliedAgree h a' b"
    using ce re by (simp add: a' appliedAgree_def configEqual_def restEqual_def list.rel_eq)
  have ka: "keysDistinct a'" using validState_keys[OF va] by (simp add: a' keysDistinct_def)
  note kb = validState_keys[OF vb]
  from Apply_agree[OF ag ka kb ax ay]
  have e: "eb = ea" and ext: "heapExtends h h2" and ag2: "appliedAgree h2 a2 b2" by simp_all
  note pa = Apply_pending[OF ax] and pb = Apply_pending[OF ay]
  have ce2: "configEqual a2 (b2\<lparr>pendingChangedConfigs := []\<rparr>)"
    using ag2 nan by (auto simp: appliedAgree_def configEqual_def float32_eq_refl)
  have pre: "prefix (crsRequests h) (crsRequests h2)" "prefix (complaints h) (complaints h2)"
    "prefix (finals h) (finals h2)" "prefix (masterPublicKeys h) (masterPublicKeys h2)"
    using ext by (simp_all add: heapExtends_def)
  have q: "list_all2 (ptrDeepEqual (crsRequests h)) (pendingCRS a) (pendingCRS b)"
    "list_all2 (sameRecord (complaints h)) (pendingDKGComplaints a) (pendingDKGComplaints b)"
    "list_all2 (sameRecord (finals h)) (pendingDKGFinals a) (pendingDKGFinals b)"
    "list_all2 (sameRecord (masterPublicKeys h))
       (pendingDKGMasterPublicKeys a) (pendingDKGMasterPublicKeys b)"
    using re by (simp_all add: restEqual_def)
  have p1: "list_all2 (ptrDeepEqual (crsRequests h2)) (pendingCRS a) (pendingCRS b)"
    using q(1) by (rule list_all2_mono) (rule ptrDeepEqual_prefix[OF pre(1)])
  have p2: "list_all2 (sameRecord (complaints h2)) (pendingDKGComplaints a) (pendingDKGComplaints b)"
    using q(2) by (rule list_all2_mono) (rule sameRecord_prefix[OF pre(2)])
  have p3: "list_all2 (sameRecord (finals h2)) (pendingDKGFinals a) (pendingDKGFinals b)"
    using q(3) by (rule list_all2_mono) (rule sameRecord_prefix[OF pre(3)])
  have p4: "list_all2 (sameRecord (masterPublicKeys h2))
              (pendingDKGMasterPublicKeys a) (pendingDKGMasterPublicKeys b)"
    using q(4) by (rule list_all2_mono) (rule sameRecord_prefix[OF pre(4)])
  have p5: "local a = local b" "list_all2 (=) (pendingNodes a) (pendingNodes b)"
    using re by (simp_all add: restEqual_def)
  have re2: "restEqual h2 a2 (b2\<lparr>pendingChangedConfigs := []\<rparr>)"
    using ag2 pa pb p1 p2 p3 p4 p5
    by (simp add: restEqual_def appliedAgree_def a' mapsAgree_Nil list.rel_eq)
  have main: "Equal h2 a2 (b2\<lparr>pendingChangedConfigs := []\<rparr>) = None"
    using ce2 re2 by (simp add: Equal_None_iff)
  have last: "Equal h2 a2 b2 = None" if "pendingChangedConfigs a = []"
  proof -
    from re that have "pendingChangedConfigs b = []"
      by (simp add: restEqual_def mapsAgree_Nil_left)
    then have "pendingChangedConfigs b2 = []" using pb by simp
    then have "b2\<lparr>pendingChangedConfigs := []\<rparr> = b2" by simp
    with main show ?thesis by metis
  qed
  show ?thesis using e main last by blast
qed

theorem Apply_on_Equal_states_witness:
  "validState twinHeap packer \<and> validState twinHeap peer \<and> Equal twinHeap packer peer = None \<and>
   (\<exists>bs a' a2 h1 b2 h2.
      PackRequests sampleLib twinHeap packer = (Inr bs, a') \<and>
      Apply sampleLib bs a' twinHeap = (None, a2, h1) \<and>
      Apply sampleLib bs peer h1 = (None, b2, h2) \<and>
      \<not> isNaN (phiRatio a2) \<and>
      Equal h2 a2 (b2\<lparr>pendingChangedConfigs := []\<rparr>) = None)"
proof -
  define packed where "packed = PackRequests sampleLib twinHeap packer"
  define bs where "bs = projr (fst packed)"
  define a' where "a' = snd packed"
  obtain ea a2 h1 where ax: "Apply sampleLib bs a' twinHeap = (ea, a2, h1)"
    by (cases "Apply sampleLib bs a' twinHeap")
  obtain eb b2 h2 where ay: "Apply sampleLib bs peer h1 = (eb, b2, h2)"
    by (cases "Apply sampleLib bs peer h1")
  have va: "validState twinHeap packer"
    by (simp add: validState_def packer_def replicaState_def NewState_def twinHeap_def
        emptyHeap_def tableOK_def allocated_def sampleLib_def sampleKeyA_def sampleKeyB_def
        sampleHash_def)
  have vb: "validState twinHeap peer"
    by (simp add: validState_def peer_def replicaState_def NewState_def twinHeap_def
        emptyHeap_def tableOK_def allocated_def sampleLib_def sampleKeyA_def sampleKeyB_def
        sampleHash_def)
  have eq: "Equal twinHeap packer peer = None" by code_simp
  have "\<not> isl (fst (PackRequests sampleLib twinHeap packer))" by code_simp
  then have pack: "PackRequests sampleLib twinHeap packer = (Inr bs, a')"
    by (cases "fst packed") (simp_all add: bs_def a'_def packed_def prod_eq_iff)
  have "fst (Apply sampleLib (projr (fst (PackRequests sampleLib twinHeap packer)))
          (snd (PackRequests sampleLib twinHeap packer)) twinHeap) = None" by code_simp
  then have ea: "ea = None" using ax by (simp add: bs_def a'_def packed_def)
  have "\<not> isNaN (phiRatio (fst (snd (Apply sampleLib (projr (fst (PackRequests sampleLib twinHeap packer)))
          (snd (PackRequests sampleLib twinHeap packer)) twinHeap))))" by code_simp
  then have nan: "\<not> isNaN (phiRatio a2)" using ax by (simp add: bs_def a'_def packed_def)
  from Apply_on_Equal_states[OF va vb eq pack ax ay nan]
  show ?thesis using va vb eq pack ax ay nan ea by blast
qed

text \<open>
  Claim C1 as worded fails whenever the batch changes anything. A replicated producer with
  a pending change of \<open>phiRatio\<close> packs it; a state equal to the producer applies the batch
  and has the new ratio, the producer after \<^verbatim>\<open>PackRequests\<close> still has the old one, and
  \<open>Equal\<close> reports a configuration mismatch.
\<close>

theorem packed_batch_not_applied_by_producer:
  "Equal emptyHeap phiPending phiPending = None \<and>
   PackRequests sampleLib emptyHeap phiPending = (Inr phiBatch, replicaState) \<and>
   Apply sampleLib phiBatch phiPending emptyHeap
     = (None, phiPending\<lparr>phiRatio := float32_0_333\<rparr>, emptyHeap) \<and>
   Equal emptyHeap replicaState (phiPending\<lparr>phiRatio := float32_0_333\<rparr>)
     = Some ErrStateConfigNotEqual"
proof -
  have a: "Equal emptyHeap phiPending phiPending = None" by code_simp
  have enc: "encodeAll sampleLib emptyHeap (fst (packRequests phiPending))
      = Inr [(StateChangePhiRatio, [0x84, 0x3E, 0xAA, 0x7E, 0xFA])]"
    by (simp add: packRequests_eq phiPending_def replicaState_def NewState_def encodePayload_def
        sampleLib_def) code_simp
  have b: "PackRequests sampleLib emptyHeap phiPending = (Inr phiBatch, replicaState)"
    by (simp add: PackRequests_def EncodeToBytes_def enc packRequests_eq)
      (simp add: phiPending_def sampleLib_def phiBatch_def, code_simp)
  have c: "Apply sampleLib phiBatch phiPending emptyHeap
     = (None, phiPending\<lparr>phiRatio := float32_0_333\<rparr>, emptyHeap)" by code_simp
  have d: "Equal emptyHeap replicaState (phiPending\<lparr>phiRatio := float32_0_333\<rparr>)
     = Some ErrStateConfigNotEqual" by code_simp
  show ?thesis using a b c d by simp
qed

end
